theory Spec2Isabelle
  imports Complex_Main
begin

section \<open>Python values\<close>

text \<open>
  A Python \<open>float\<close> is modelled as a real number or one of the three special values
  the code can produce with \<open>float('inf')\<close>: plus and minus infinity and not-a-number.
  Rounding and signed zeros are not modelled: a finite float is the real number it stands
  for. The attributes of hosts and tasks, the entries of position vectors and the
  arguments of the cost functions are finite floats and have type \<open>real\<close>; what the
  code computes from them has type \<open>pyfloat\<close>.
\<close>

datatype pyfloat = Fin real | PInf | NInf | NaN

datatype py_error = ZeroDivisionError | IndexError | AttributeError | ValueError

fun pf_neg :: "pyfloat \<Rightarrow> pyfloat" where
  "pf_neg (Fin a) = Fin (- a)"
| "pf_neg PInf = NInf"
| "pf_neg NInf = PInf"
| "pf_neg NaN = NaN"

fun pf_add :: "pyfloat \<Rightarrow> pyfloat \<Rightarrow> pyfloat" where
  "pf_add (Fin a) (Fin b) = Fin (a + b)"
| "pf_add (Fin a) PInf = PInf"
| "pf_add (Fin a) NInf = NInf"
| "pf_add PInf (Fin b) = PInf"
| "pf_add PInf PInf = PInf"
| "pf_add PInf NInf = NaN"
| "pf_add NInf (Fin b) = NInf"
| "pf_add NInf PInf = NaN"
| "pf_add NInf NInf = NInf"
| "pf_add NaN b = NaN"
| "pf_add a NaN = NaN"

definition pf_sub :: "pyfloat \<Rightarrow> pyfloat \<Rightarrow> pyfloat" where
  "pf_sub a b = pf_add a (pf_neg b)"

text \<open>The product of an infinity and zero is not a number.\<close>

fun pf_mul :: "pyfloat \<Rightarrow> pyfloat \<Rightarrow> pyfloat" where
  "pf_mul (Fin a) (Fin b) = Fin (a * b)"
| "pf_mul (Fin a) PInf = (if a = 0 then NaN else if 0 < a then PInf else NInf)"
| "pf_mul (Fin a) NInf = (if a = 0 then NaN else if 0 < a then NInf else PInf)"
| "pf_mul PInf (Fin b) = (if b = 0 then NaN else if 0 < b then PInf else NInf)"
| "pf_mul NInf (Fin b) = (if b = 0 then NaN else if 0 < b then NInf else PInf)"
| "pf_mul PInf PInf = PInf"
| "pf_mul PInf NInf = NInf"
| "pf_mul NInf PInf = NInf"
| "pf_mul NInf NInf = PInf"
| "pf_mul NaN b = NaN"
| "pf_mul a NaN = NaN"

text \<open>Comparisons with not-a-number are all false.\<close>

fun pf_lt :: "pyfloat \<Rightarrow> pyfloat \<Rightarrow> bool" where
  "pf_lt (Fin a) (Fin b) = (a < b)"
| "pf_lt (Fin a) PInf = True"
| "pf_lt (Fin a) NInf = False"
| "pf_lt PInf b = False"
| "pf_lt NInf (Fin b) = True"
| "pf_lt NInf PInf = True"
| "pf_lt NInf NInf = False"
| "pf_lt a NaN = False"
| "pf_lt NaN b = False"

fun pf_le :: "pyfloat \<Rightarrow> pyfloat \<Rightarrow> bool" where
  "pf_le (Fin a) (Fin b) = (a \<le> b)"
| "pf_le (Fin a) PInf = True"
| "pf_le (Fin a) NInf = False"
| "pf_le PInf (Fin b) = False"
| "pf_le PInf PInf = True"
| "pf_le PInf NInf = False"
| "pf_le NInf (Fin b) = True"
| "pf_le NInf PInf = True"
| "pf_le NInf NInf = True"
| "pf_le a NaN = False"
| "pf_le NaN b = False"

text \<open>
  Python's \<open>/\<close> on floats raises \<open>ZeroDivisionError\<close> for a zero divisor and follows
  the floating-point rules otherwise.
\<close>

fun py_truediv :: "pyfloat \<Rightarrow> pyfloat \<Rightarrow> py_error + pyfloat" where
  "py_truediv a (Fin b) =
     (if b = 0 then Inl ZeroDivisionError
      else Inr (case a of
                  Fin x \<Rightarrow> Fin (x / b)
                | PInf \<Rightarrow> (if 0 < b then PInf else NInf)
                | NInf \<Rightarrow> (if 0 < b then NInf else PInf)
                | NaN \<Rightarrow> NaN))"
| "py_truediv a PInf = Inr (case a of Fin x \<Rightarrow> Fin 0 | _ \<Rightarrow> NaN)"
| "py_truediv a NInf = Inr (case a of Fin x \<Rightarrow> Fin 0 | _ \<Rightarrow> NaN)"
| "py_truediv a NaN = Inr NaN"

text \<open>
  \<open>math.exp\<close>, on the reals extended with the special values. The overflow of
  \<open>math.exp\<close> on a large finite argument is a matter of the float format and is not
  modelled.
\<close>

fun py_exp :: "pyfloat \<Rightarrow> pyfloat" where
  "py_exp (Fin a) = Fin (exp a)"
| "py_exp PInf = PInf"
| "py_exp NInf = Fin 0"
| "py_exp NaN = NaN"

text \<open>An exception ends the computation: the rest runs only on a returned value.\<close>

definition bind_err :: "py_error + 'a \<Rightarrow> ('a \<Rightarrow> py_error + 'b) \<Rightarrow> py_error + 'b" where
  "bind_err m f = (case m of Inl e \<Rightarrow> Inl e | Inr v \<Rightarrow> f v)"

section \<open>System model\<close>

text \<open>
  The classes of the system model as records. Where two classes have an attribute of the
  same name, the later record's field carries a prefix: \<open>dc_\<close> for the cloud data
  center, \<open>sched_\<close> for the schedule, \<open>m_\<close> for the optimizer. The power
  coefficients \<open>alpha\<close>, \<open>beta\<close> and \<open>gamma\<close> of a fog node are the fields
  \<open>dvfs_alpha\<close>, \<open>dvfs_beta\<close> and \<open>dvfs_gamma\<close>.
\<close>

record fog_node =
  node_id :: int
  cpu_mips :: real
  memory_mb :: real
  bandwidth_in_mbps :: real
  bandwidth_out_mbps :: real
  failure_rate :: real
  idle_power_w :: real
  tx_power_w :: real
  rx_power_w :: real
  dvfs_alpha :: real
  dvfs_beta :: real
  dvfs_gamma :: real

record task =
  task_id :: int
  workload_mi :: real
  input_size_mb :: real
  output_size_mb :: real
  memory_requirement_mb :: real
  deadline_s :: real
  criticality :: int
  source_device_id :: int

record cloud_data_center =
  center_id :: int
  dc_cpu_mips :: real
  dc_memory_mb :: real
  dc_bandwidth_in_mbps :: real
  dc_bandwidth_out_mbps :: real
  dc_failure_rate :: real
  dc_idle_power_w :: real

text \<open>A host is an object of one of the two classes; both carry the attributes read here.\<close>

datatype host = Fog fog_node | Cloud cloud_data_center

fun host_cpu_mips :: "host \<Rightarrow> real" where
  "host_cpu_mips (Fog n) = cpu_mips n"
| "host_cpu_mips (Cloud c) = dc_cpu_mips c"

fun host_memory_mb :: "host \<Rightarrow> real" where
  "host_memory_mb (Fog n) = memory_mb n"
| "host_memory_mb (Cloud c) = dc_memory_mb c"

fun host_failure_rate :: "host \<Rightarrow> real" where
  "host_failure_rate (Fog n) = failure_rate n"
| "host_failure_rate (Cloud c) = dc_failure_rate c"

text \<open>\<open>host.node_id if hasattr(host, 'node_id') else host.center_id\<close>\<close>

fun host_id :: "host \<Rightarrow> int" where
  "host_id (Fog n) = node_id n"
| "host_id (Cloud c) = center_id c"

record fog_cloud_topology =
  fog_nodes :: "int \<rightharpoonup> fog_node"
  cloud_datacenters :: "int \<rightharpoonup> cloud_data_center"
  network_latency_ms :: "int \<times> int \<rightharpoonup> real"
  network_bandwidth_mbps :: "int \<times> int \<rightharpoonup> real"
  num_fog :: int
  num_cloud :: int

text \<open>
  The constructor builds the two dictionaries from lists; a later entry with the same id
  replaces an earlier one.
\<close>

definition FogCloudTopology :: "fog_node list \<Rightarrow> cloud_data_center list \<Rightarrow>
    (int \<times> int \<rightharpoonup> real) \<Rightarrow> (int \<times> int \<rightharpoonup> real) \<Rightarrow> fog_cloud_topology" where
  "FogCloudTopology fogs clouds latency bandwidth =
     \<lparr> fog_nodes = map_of (rev (map (\<lambda>n. (node_id n, n)) fogs)),
       cloud_datacenters = map_of (rev (map (\<lambda>c. (center_id c, c)) clouds)),
       network_latency_ms = latency,
       network_bandwidth_mbps = bandwidth,
       num_fog = int (length fogs),
       num_cloud = int (length clouds) \<rparr>"

definition get_latency_ms :: "fog_cloud_topology \<Rightarrow> int \<Rightarrow> int \<Rightarrow> real" where
  "get_latency_ms topo source_id dest_id =
     (case network_latency_ms topo (source_id, dest_id) of
        None \<Rightarrow> (case network_latency_ms topo (dest_id, source_id) of
                   None \<Rightarrow> 50 | Some l \<Rightarrow> l)
      | Some l \<Rightarrow> l)"

definition get_bandwidth_mbps :: "fog_cloud_topology \<Rightarrow> int \<Rightarrow> int \<Rightarrow> real" where
  "get_bandwidth_mbps topo source_id dest_id =
     (case network_bandwidth_mbps topo (source_id, dest_id) of
        None \<Rightarrow> (case network_bandwidth_mbps topo (dest_id, source_id) of
                   None \<Rightarrow> 100 | Some b \<Rightarrow> b)
      | Some b \<Rightarrow> b)"

definition is_fog_node :: "fog_cloud_topology \<Rightarrow> int \<Rightarrow> bool" where
  "is_fog_node topo n = (fog_nodes topo n \<noteq> None)"

definition is_cloud_center :: "fog_cloud_topology \<Rightarrow> int \<Rightarrow> bool" where
  "is_cloud_center topo n = (cloud_datacenters topo n \<noteq> None)"

definition get_host :: "fog_cloud_topology \<Rightarrow> int \<Rightarrow> host option" where
  "get_host topo n =
     (if is_fog_node topo n then map_option Fog (fog_nodes topo n)
      else if is_cloud_center topo n then map_option Cloud (cloud_datacenters topo n)
      else None)"

subsection \<open>Cost model\<close>

definition task_execution_time :: "task \<Rightarrow> host \<Rightarrow> real \<Rightarrow> py_error + pyfloat" where
  "task_execution_time t h frequency_ghz =
     (if 0 < host_cpu_mips h then py_truediv (Fin (workload_mi t)) (Fin (host_cpu_mips h))
      else Inr PInf)"

definition transfer_time_s :: "real \<Rightarrow> real \<Rightarrow> real \<Rightarrow> py_error + pyfloat" where
  "transfer_time_s data_size_mb bandwidth latency_ms =
     bind_err (if 0 < bandwidth
               then py_truediv (pf_mul (Fin data_size_mb) (Fin 8)) (Fin bandwidth)
               else Inr PInf)
       (\<lambda>transmission_s.
          bind_err (py_truediv (Fin latency_ms) (Fin 1000))
            (\<lambda>latency_s. Inr (pf_add transmission_s latency_s)))"

definition total_transfer_time :: "real \<Rightarrow> real \<Rightarrow> real \<Rightarrow> py_error + pyfloat" where
  "total_transfer_time data_size_mb bandwidth latency_ms =
     bind_err (if 0 < bandwidth
               then py_truediv (pf_mul (Fin data_size_mb) (Fin 8)) (Fin bandwidth)
               else Inr PInf)
       (\<lambda>transmission_s.
          bind_err (py_truediv (Fin latency_ms) (Fin 1000))
            (\<lambda>latency_s. Inr (pf_add transmission_s latency_s)))"

definition node_success_probability :: "host \<Rightarrow> pyfloat \<Rightarrow> py_error + pyfloat" where
  "node_success_probability h execution_time_s =
     bind_err (py_truediv (Fin (host_failure_rate h)) (Fin 3600))
       (\<lambda>lambda_per_second.
          Inr (py_exp (pf_mul (pf_neg lambda_per_second) execution_time_s)))"

fun failure_product :: "pyfloat \<Rightarrow> pyfloat list \<Rightarrow> pyfloat" where
  "failure_product failure_prob [] = failure_prob"
| "failure_product failure_prob (p_succ # ps) =
     failure_product (pf_mul failure_prob (pf_sub (Fin 1) p_succ)) ps"

definition task_success_with_replication :: "pyfloat list \<Rightarrow> pyfloat" where
  "task_success_with_replication success_probs =
     (if success_probs = [] then Fin 0
      else pf_sub (Fin 1) (failure_product (Fin 1) success_probs))"

text \<open>
  \<open>task_total_time\<close> reads an attribute of the host before anything else, so a call
  with \<open>None\<close> for the host raises \<open>AttributeError\<close>.
\<close>

definition task_total_time ::
    "task \<Rightarrow> int \<Rightarrow> host option \<Rightarrow> real \<Rightarrow> fog_cloud_topology \<Rightarrow> py_error + pyfloat" where
  "task_total_time t device_id ho frequency_ghz topo =
     (case ho of
        None \<Rightarrow> Inl AttributeError
      | Some h \<Rightarrow>
          bind_err (total_transfer_time (input_size_mb t)
                      (get_bandwidth_mbps topo device_id (host_id h))
                      (get_latency_ms topo device_id (host_id h)))
            (\<lambda>t_trans_in.
               bind_err (task_execution_time t h frequency_ghz)
                 (\<lambda>exec_time.
                    bind_err (total_transfer_time (output_size_mb t)
                                (get_bandwidth_mbps topo (host_id h) device_id)
                                (get_latency_ms topo (host_id h) device_id))
                      (\<lambda>t_trans_out.
                         Inr (pf_add (pf_add t_trans_in exec_time) t_trans_out)))))"

section \<open>Objectives\<close>

text \<open>
  A schedule's \<open>assignments\<close> dictionary maps a task id to its replica list and its
  frequency. The penalty coefficients are the dictionary with the four keys
  \<open>cpu\<close>, \<open>memory\<close>, \<open>deadline\<close> and \<open>reliability\<close>.
\<close>

record assignment =
  nodes :: "int list"
  frequency :: real

record schedule =
  sched_num_tasks :: int
  sched_num_hosts :: int
  assignments :: "int \<rightharpoonup> assignment"

record penalty_coeffs =
  pen_cpu :: real
  pen_memory :: real
  pen_deadline :: real
  pen_reliability :: real

record objective_function =
  topology :: fog_cloud_topology
  tasks :: "task list"
  beta_energy :: real
  beta_reliability :: real
  penalties :: penalty_coeffs

definition default_penalties :: penalty_coeffs where
  "default_penalties =
     \<lparr> pen_cpu = 10000, pen_memory = 10000, pen_deadline = 100000, pen_reliability = 100000 \<rparr>"

definition ObjectiveFunction :: "fog_cloud_topology \<Rightarrow> task list \<Rightarrow> real \<Rightarrow> real \<Rightarrow>
    penalty_coeffs option \<Rightarrow> objective_function" where
  "ObjectiveFunction topo ts b_energy b_reliability coeffs =
     \<lparr> topology = topo, tasks = ts, beta_energy = b_energy, beta_reliability = b_reliability,
       penalties = (case coeffs of None \<Rightarrow> default_penalties | Some c \<Rightarrow> c) \<rparr>"

definition Schedule :: "int \<Rightarrow> int \<Rightarrow> schedule" where
  "Schedule n_tasks n_hosts =
     \<lparr> sched_num_tasks = n_tasks, sched_num_hosts = n_hosts, assignments = Map.empty \<rparr>"

definition assign_task :: "schedule \<Rightarrow> int \<Rightarrow> int list \<Rightarrow> real \<Rightarrow> schedule" where
  "assign_task sched tid node_ids frequency_ghz =
     sched\<lparr> assignments := (assignments sched)
              (tid \<mapsto> \<lparr> nodes = node_ids, frequency = frequency_ghz \<rparr>) \<rparr>"

subsection \<open>System reliability\<close>

text \<open>The inner loop over the replicas: a host that is not found counts as probability 0.\<close>

fun replica_success_probs ::
    "fog_cloud_topology \<Rightarrow> task \<Rightarrow> real \<Rightarrow> int list \<Rightarrow> pyfloat list \<Rightarrow> py_error + pyfloat list" where
  "replica_success_probs topo t frequency_ghz [] success_probs = Inr success_probs"
| "replica_success_probs topo t frequency_ghz (n # ns) success_probs =
     (case get_host topo n of
        None \<Rightarrow> replica_success_probs topo t frequency_ghz ns (success_probs @ [Fin 0])
      | Some h \<Rightarrow>
          bind_err (task_execution_time t h frequency_ghz)
            (\<lambda>exec_time.
               bind_err (node_success_probability h exec_time)
                 (\<lambda>p_succ.
                    replica_success_probs topo t frequency_ghz ns (success_probs @ [p_succ]))))"

fun reliability_loop ::
    "objective_function \<Rightarrow> schedule \<Rightarrow> task list \<Rightarrow> pyfloat \<Rightarrow> py_error + pyfloat" where
  "reliability_loop self sched [] total_success_prob = Inr total_success_prob"
| "reliability_loop self sched (t # ts) total_success_prob =
     (case assignments sched (task_id t) of
        None \<Rightarrow> reliability_loop self sched ts (pf_add total_success_prob (Fin 0))
      | Some a \<Rightarrow>
          bind_err (replica_success_probs (topology self) t (frequency a) (nodes a) [])
            (\<lambda>success_probs.
               reliability_loop self sched ts
                 (pf_add total_success_prob (task_success_with_replication success_probs))))"

definition system_reliability :: "objective_function \<Rightarrow> schedule \<Rightarrow> py_error + pyfloat" where
  "system_reliability self sched =
     (if tasks self = [] then Inr (Fin 0)
      else bind_err (reliability_loop self sched (tasks self) (Fin 0))
             (\<lambda>total_success_prob.
                py_truediv total_success_prob (Fin (real (length (tasks self))))))"

subsection \<open>Penalty function\<close>

text \<open>
  The load dictionaries keep their keys in insertion order;
  \<open>dict_increment d k v\<close> is \<open>if k not in d: d[k] = 0.0\<close> followed by \<open>d[k] += v\<close>.
\<close>

fun dict_increment :: "(int \<times> real) list \<Rightarrow> int \<Rightarrow> real \<Rightarrow> (int \<times> real) list" where
  "dict_increment [] k v = [(k, 0 + v)]"
| "dict_increment ((k', x) # d) k v =
     (if k' = k then (k', x + v) # d else (k', x) # dict_increment d k v)"

fun load_nodes :: "(int \<times> real) list \<Rightarrow> int list \<Rightarrow> real \<Rightarrow> (int \<times> real) list" where
  "load_nodes d [] v = d"
| "load_nodes d (n # ns) v = load_nodes (dict_increment d n v) ns v"

text \<open>
  The CPU and the memory section build their dictionary with the same loop, over the
  workload and over the memory requirement of each task.
\<close>

fun load_table ::
    "(task \<Rightarrow> real) \<Rightarrow> schedule \<Rightarrow> task list \<Rightarrow> (int \<times> real) list \<Rightarrow> (int \<times> real) list" where
  "load_table amount sched [] d = d"
| "load_table amount sched (t # ts) d =
     (case assignments sched (task_id t) of
        None \<Rightarrow> load_table amount sched ts d
      | Some a \<Rightarrow> load_table amount sched ts (load_nodes d (nodes a) (amount t)))"

text \<open>
  The loop over the dictionary's items: a host object is always true, so only a host that
  is not found is skipped; the division raises for a capacity of zero.
\<close>

fun capacity_loop :: "fog_cloud_topology \<Rightarrow> (host \<Rightarrow> real) \<Rightarrow> real \<Rightarrow> (int \<times> real) list \<Rightarrow>
    pyfloat \<Rightarrow> py_error + pyfloat" where
  "capacity_loop topo capacity coeff [] penalty = Inr penalty"
| "capacity_loop topo capacity coeff ((n, load) # items) penalty =
     (case get_host topo n of
        None \<Rightarrow> capacity_loop topo capacity coeff items penalty
      | Some h \<Rightarrow>
          bind_err (py_truediv (Fin load) (Fin (capacity h)))
            (\<lambda>utilization.
               capacity_loop topo capacity coeff items
                 (if pf_lt (Fin 1) utilization
                  then pf_add penalty (pf_mul (Fin coeff) (pf_sub utilization (Fin 1)))
                  else penalty)))"

definition cpu_violations :: "objective_function \<Rightarrow> schedule \<Rightarrow> pyfloat \<Rightarrow> py_error + pyfloat" where
  "cpu_violations self sched penalty =
     capacity_loop (topology self) host_cpu_mips (pen_cpu (penalties self))
       (load_table workload_mi sched (tasks self) []) penalty"

definition memory_violations :: "objective_function \<Rightarrow> schedule \<Rightarrow> pyfloat \<Rightarrow> py_error + pyfloat" where
  "memory_violations self sched penalty =
     capacity_loop (topology self) host_memory_mb (pen_memory (penalties self))
       (load_table memory_requirement_mb sched (tasks self) []) penalty"

text \<open>
  The deadline section looks at the first replica only. Its guard \<open>if node_id:\<close> is
  false for an empty replica list and also for the host id 0.
\<close>

fun deadline_loop ::
    "objective_function \<Rightarrow> schedule \<Rightarrow> task list \<Rightarrow> pyfloat \<Rightarrow> py_error + pyfloat" where
  "deadline_loop self sched [] penalty = Inr penalty"
| "deadline_loop self sched (t # ts) penalty =
     (case assignments sched (task_id t) of
        None \<Rightarrow> deadline_loop self sched ts (pf_add penalty (Fin (pen_deadline (penalties self))))
      | Some a \<Rightarrow>
          (case nodes a of
             [] \<Rightarrow> deadline_loop self sched ts penalty
           | n # _ \<Rightarrow>
               if n = 0 then deadline_loop self sched ts penalty
               else
                 bind_err (task_total_time t (source_device_id t) (get_host (topology self) n)
                             (frequency a) (topology self))
                   (\<lambda>total_time.
                      deadline_loop self sched ts
                        (if pf_lt (Fin (deadline_s t)) total_time
                         then pf_add penalty (Fin (pen_deadline (penalties self)))
                         else penalty))))"

definition deadline_violations ::
    "objective_function \<Rightarrow> schedule \<Rightarrow> pyfloat \<Rightarrow> py_error + pyfloat" where
  "deadline_violations self sched penalty = deadline_loop self sched (tasks self) penalty"

text \<open>In the reliability section a host that is not found adds no probability.\<close>

fun critical_success_probs ::
    "fog_cloud_topology \<Rightarrow> task \<Rightarrow> real \<Rightarrow> int list \<Rightarrow> pyfloat list \<Rightarrow> py_error + pyfloat list" where
  "critical_success_probs topo t frequency_ghz [] success_probs = Inr success_probs"
| "critical_success_probs topo t frequency_ghz (n # ns) success_probs =
     (case get_host topo n of
        None \<Rightarrow> critical_success_probs topo t frequency_ghz ns success_probs
      | Some h \<Rightarrow>
          bind_err (task_execution_time t h frequency_ghz)
            (\<lambda>exec_time.
               bind_err (node_success_probability h exec_time)
                 (\<lambda>p_succ.
                    critical_success_probs topo t frequency_ghz ns (success_probs @ [p_succ]))))"

definition min_reliability :: real where
  "min_reliability = 99 / 100"

fun reliability_penalty_loop ::
    "objective_function \<Rightarrow> schedule \<Rightarrow> task list \<Rightarrow> pyfloat \<Rightarrow> py_error + pyfloat" where
  "reliability_penalty_loop self sched [] penalty = Inr penalty"
| "reliability_penalty_loop self sched (t # ts) penalty =
     (if criticality t = 0 then reliability_penalty_loop self sched ts penalty
      else
        (case assignments sched (task_id t) of
           None \<Rightarrow>
             reliability_penalty_loop self sched ts
               (pf_add penalty (Fin (pen_reliability (penalties self))))
         | Some a \<Rightarrow>
             bind_err (critical_success_probs (topology self) t (frequency a) (nodes a) [])
               (\<lambda>success_probs.
                  reliability_penalty_loop self sched ts
                    (if pf_lt (task_success_with_replication success_probs) (Fin min_reliability)
                     then pf_add penalty
                            (pf_mul (Fin (pen_reliability (penalties self)))
                               (pf_sub (Fin min_reliability)
                                  (task_success_with_replication success_probs)))
                     else penalty))))"

definition reliability_violations ::
    "objective_function \<Rightarrow> schedule \<Rightarrow> pyfloat \<Rightarrow> py_error + pyfloat" where
  "reliability_violations self sched penalty =
     reliability_penalty_loop self sched (tasks self) penalty"

definition penalty_function :: "objective_function \<Rightarrow> schedule \<Rightarrow> py_error + pyfloat" where
  "penalty_function self sched =
     bind_err (cpu_violations self sched (Fin 0))
       (\<lambda>p1. bind_err (memory_violations self sched p1)
          (\<lambda>p2. bind_err (deadline_violations self sched p2)
             (\<lambda>p3. reliability_violations self sched p3)))"

subsection \<open>The penalty terms as the specification words them\<close>

text \<open>
  Deadline term of the specification: a task counts when it has no assignment, or when the
  total task time of its first-listed replica exceeds its deadline.
\<close>

definition misses_deadline :: "objective_function \<Rightarrow> schedule \<Rightarrow> task \<Rightarrow> bool" where
  "misses_deadline self sched t =
     (case assignments sched (task_id t) of
        None \<Rightarrow> True
      | Some a \<Rightarrow>
          (case nodes a of
             [] \<Rightarrow> False
           | n # _ \<Rightarrow>
               (case task_total_time t (source_device_id t) (get_host (topology self) n)
                       (frequency a) (topology self) of
                  Inl e \<Rightarrow> False
                | Inr total_time \<Rightarrow> pf_lt (Fin (deadline_s t)) total_time)))"

definition deadline_component_spec :: "objective_function \<Rightarrow> schedule \<Rightarrow> real" where
  "deadline_component_spec self sched =
     pen_deadline (penalties self) *
       real (length (filter (misses_deadline self sched) (tasks self)))"

subsection \<open>Example inputs\<close>

text \<open>The fog node and the task of the test fixtures, with the attributes that vary left open.\<close>

definition example_fog :: "int \<Rightarrow> real \<Rightarrow> real \<Rightarrow> fog_node" where
  "example_fog i mips rate =
     \<lparr> node_id = i, cpu_mips = mips, memory_mb = 2048, bandwidth_in_mbps = 100,
       bandwidth_out_mbps = 100, failure_rate = rate, idle_power_w = 10,
       tx_power_w = 18 / 10, rx_power_w = 12 / 10,
       dvfs_alpha = 1 / 10000, dvfs_beta = 0, dvfs_gamma = 0 \<rparr>"

definition example_task :: "int \<Rightarrow> real \<Rightarrow> task" where
  "example_task j w =
     \<lparr> task_id = j, workload_mi = w, input_size_mb = 10, output_size_mb = 5,
       memory_requirement_mb = 256, deadline_s = 10, criticality = 0, source_device_id = 0 \<rparr>"

text \<open>
  One task of 1000000 MI with a deadline of 10 s, assigned to host 0 (2000 MIPS): it runs
  for 500 s.
\<close>

definition late_objective :: objective_function where
  "late_objective =
     ObjectiveFunction (FogCloudTopology [example_fog 0 2000 (1 / 10000)] [] Map.empty Map.empty)
       [example_task 0 1000000] (6 / 10) (4 / 10) None"

definition late_schedule :: schedule where
  "late_schedule = assign_task (Schedule 1 1) 0 [0] 2"

text \<open>One task assigned to host 1, whose processing rate and failure rate are both 0.\<close>

definition dead_objective :: objective_function where
  "dead_objective =
     ObjectiveFunction (FogCloudTopology [example_fog 1 0 0] [] Map.empty Map.empty)
       [example_task 0 1000] (6 / 10) (4 / 10) None"

definition dead_schedule :: schedule where
  "dead_schedule = assign_task (Schedule 1 1) 0 [1] 2"

subsection \<open>The CPU term as the specification words it\<close>

text \<open>
  The hosts with any assigned load are the hosts named in the replica list of an assigned
  task; a host's total assigned workload counts a task once for each time the host stands
  in the task's replica list. A host id that the topology does not know has no capacity
  and adds nothing.
\<close>

definition assigned_nodes :: "schedule \<Rightarrow> task \<Rightarrow> int list" where
  "assigned_nodes sched t =
     (case assignments sched (task_id t) of None \<Rightarrow> [] | Some a \<Rightarrow> nodes a)"

definition total_assigned :: "(task \<Rightarrow> real) \<Rightarrow> schedule \<Rightarrow> task list \<Rightarrow> int \<Rightarrow> real" where
  "total_assigned amount sched ts h =
     (\<Sum>t\<leftarrow>ts. real (count_list (assigned_nodes sched t) h) * amount t)"

definition loaded_hosts :: "schedule \<Rightarrow> task list \<Rightarrow> int set" where
  "loaded_hosts sched ts = (\<Union>t\<in>set ts. set (assigned_nodes sched t))"

definition overload :: "fog_cloud_topology \<Rightarrow> (host \<Rightarrow> real) \<Rightarrow> int \<Rightarrow> real \<Rightarrow> real" where
  "overload topo capacity h load =
     (case get_host topo h of None \<Rightarrow> 0 | Some ho \<Rightarrow> max 0 (load / capacity ho - 1))"

definition cpu_component_spec :: "objective_function \<Rightarrow> schedule \<Rightarrow> real" where
  "cpu_component_spec self sched =
     pen_cpu (penalties self) *
       (\<Sum>h\<in>loaded_hosts sched (tasks self).
          overload (topology self) host_cpu_mips h
            (total_assigned workload_mi sched (tasks self) h))"

text \<open>The conditions under which the CPU term is stated.\<close>

definition capacities_nonzero :: "fog_cloud_topology \<Rightarrow> (host \<Rightarrow> real) \<Rightarrow> int set \<Rightarrow> bool" where
  "capacities_nonzero topo capacity hs =
     (\<forall>h\<in>hs. case get_host topo h of None \<Rightarrow> True | Some ho \<Rightarrow> capacity ho \<noteq> 0)"

definition all_on_one_host :: "objective_function \<Rightarrow> schedule \<Rightarrow> int \<Rightarrow> host \<Rightarrow> bool" where
  "all_on_one_host self sched h ho =
     (get_host (topology self) h = Some ho \<and>
      (\<forall>t\<in>set (tasks self). \<exists>a. assignments sched (task_id t) = Some a \<and> nodes a = [h]))"

definition nonneg_penalties :: "penalty_coeffs \<Rightarrow> bool" where
  "nonneg_penalties c =
     (0 < pen_cpu c \<and> 0 \<le> pen_memory c \<and> 0 \<le> pen_deadline c \<and> 0 \<le> pen_reliability c)"

text \<open>The value a load dictionary holds for a key, 0 for a key it does not have.\<close>

definition dict_val :: "(int \<times> real) list \<Rightarrow> int \<Rightarrow> real" where
  "dict_val d k = (case map_of d k of None \<Rightarrow> 0 | Some x \<Rightarrow> x)"

text \<open>Two tasks of 1500 MI each, both assigned to host 1 (2000 MIPS).\<close>

definition crowded_objective :: objective_function where
  "crowded_objective =
     ObjectiveFunction (FogCloudTopology [example_fog 1 2000 (1 / 10000)] [] Map.empty Map.empty)
       [example_task 0 1500, example_task 1 1500] (6 / 10) (4 / 10) None"

definition crowded_schedule :: schedule where
  "crowded_schedule = assign_task (assign_task (Schedule 2 1) 0 [1] 2) 1 [1] 2"

text \<open>
  The same two tasks on a single host \<open>n\<close> with id 1, with the given penalty
  coefficients: on a host of 2000 MIPS without memory, on that host with all coefficients
  0, and on a host whose processing rate is - 1.
\<close>

definition crowded_on :: "fog_node \<Rightarrow> penalty_coeffs option \<Rightarrow> objective_function" where
  "crowded_on n coeffs =
     ObjectiveFunction (FogCloudTopology [n] [] Map.empty Map.empty)
       [example_task 0 1500, example_task 1 1500] (6 / 10) (4 / 10) coeffs"

definition no_penalties :: penalty_coeffs where
  "no_penalties = \<lparr> pen_cpu = 0, pen_memory = 0, pen_deadline = 0, pen_reliability = 0 \<rparr>"

definition starved_objective :: objective_function where
  "starved_objective = crowded_on ((example_fog 1 2000 (1 / 10000))\<lparr> memory_mb := 0 \<rparr>) None"

definition unpenalised_objective :: objective_function where
  "unpenalised_objective = crowded_on (example_fog 1 2000 (1 / 10000)) (Some no_penalties)"

definition negative_objective :: objective_function where
  "negative_objective = crowded_on (example_fog 1 (- 1) (1 / 10000)) None"

subsection \<open>Conditions under which the deadline term and the reliability are as specified\<close>

text \<open>
  The deadline section checks a task's first replica when the replica's host id is not 0
  and the topology knows it.
\<close>

definition first_replica_checked :: "objective_function \<Rightarrow> schedule \<Rightarrow> task \<Rightarrow> bool" where
  "first_replica_checked self sched t =
     (case assignments sched (task_id t) of
        None \<Rightarrow> True
      | Some a \<Rightarrow>
          (case nodes a of
             [] \<Rightarrow> True
           | n # _ \<Rightarrow> n \<noteq> 0 \<and> get_host (topology self) n \<noteq> None))"

text \<open>A probability: a finite value from 0 to 1.\<close>

definition unit_prob :: "pyfloat \<Rightarrow> bool" where
  "unit_prob p = (\<exists>r. p = Fin r \<and> 0 \<le> r \<and> r \<le> 1)"

text \<open>
  No workload is negative, and every host of the topology that a task is assigned to has
  a positive processing rate and a failure rate that is not negative.
\<close>

definition sound_hosts :: "objective_function \<Rightarrow> schedule \<Rightarrow> bool" where
  "sound_hosts self sched =
     (\<forall>t\<in>set (tasks self). 0 \<le> workload_mi t
        \<and> (\<forall>n\<in>set (assigned_nodes sched t).
              case get_host (topology self) n of
                None \<Rightarrow> True
              | Some ho \<Rightarrow> 0 < host_cpu_mips ho \<and> 0 \<le> host_failure_rate ho))"

section \<open>MD-GWO\<close>

subsection \<open>Objects and arrays\<close>

text \<open>
  Wolves are objects and their position vectors are arrays, and both are shared by
  reference: the leaders of the optimizer are wolves of its population, and an array can
  be written in place. The store holds the arrays and the wolf objects in two lists; a
  reference is an index into its list, and allocating appends. A wolf holds the references
  of its \<open>position\<close> and \<open>pbest\<close> arrays.
\<close>

record wolf =
  position :: nat
  num_tasks :: int
  num_hosts :: int
  fitness :: pyfloat
  pbest :: nat
  pbest_fitness :: pyfloat

record heap =
  arrays :: "real list list"
  wolf_objects :: "wolf list"

definition wolf_position :: "heap \<Rightarrow> nat \<Rightarrow> real list" where
  "wolf_position h w = arrays h ! position (wolf_objects h ! w)"

definition wolf_pbest :: "heap \<Rightarrow> nat \<Rightarrow> real list" where
  "wolf_pbest h w = arrays h ! pbest (wolf_objects h ! w)"

text \<open>A wolf reference of a running program names an object whose arrays exist.\<close>

definition valid_wolf :: "heap \<Rightarrow> nat \<Rightarrow> bool" where
  "valid_wolf h w =
     (w < length (wolf_objects h)
      \<and> position (wolf_objects h ! w) < length (arrays h)
      \<and> pbest (wolf_objects h ! w) < length (arrays h))"

text \<open>The constructor copies the given vector twice and returns the new wolf's reference.\<close>

definition Wolf :: "heap \<Rightarrow> real list \<Rightarrow> int \<Rightarrow> int \<Rightarrow> nat \<times> heap" where
  "Wolf h pos n_tasks n_hosts =
     (length (wolf_objects h),
      h\<lparr> arrays := arrays h @ [pos, pos],
         wolf_objects := wolf_objects h @
           [\<lparr> position = length (arrays h), num_tasks = n_tasks, num_hosts = n_hosts,
              fitness = PInf, pbest = Suc (length (arrays h)), pbest_fitness = PInf \<rparr>] \<rparr>)"

subsection \<open>Decoding a position\<close>

text \<open>\<open>int(np.round(x))\<close>: to the nearest integer, a tie to the even one.\<close>

definition py_round :: "real \<Rightarrow> int" where
  "py_round x =
     (let f = \<lfloor>x\<rfloor>; d = x - of_int f
      in if d < 1 / 2 then f else if 1 / 2 < d then f + 1 else if even f then f else f + 1)"

text \<open>\<open>np.clip(x, lo, hi)\<close> is \<open>minimum(maximum(x, lo), hi)\<close>.\<close>

definition np_clip :: "real \<Rightarrow> real \<Rightarrow> real \<Rightarrow> real" where
  "np_clip x lo hi = min (max x lo) hi"

text \<open>\<open>self.position[i] if i < len(self.position) else default\<close>\<close>

definition coordinate :: "real list \<Rightarrow> nat \<Rightarrow> real \<Rightarrow> real" where
  "coordinate pos i dflt = (if i < length pos then pos ! i else dflt)"

fun spread_replicas :: "int \<Rightarrow> int \<Rightarrow> int list \<Rightarrow> int list \<Rightarrow> int list" where
  "spread_replicas primary n_hosts [] node_ids = node_ids"
| "spread_replicas primary n_hosts (r # rs) node_ids =
     spread_replicas primary n_hosts rs (node_ids @ [(primary + r) mod n_hosts])"

text \<open>The body of the loop for task \<open>j\<close>, after the modulo by the number of hosts.\<close>

definition decode_entry :: "real list \<Rightarrow> int \<Rightarrow> nat \<Rightarrow> int list \<times> real" where
  "decode_entry pos n_hosts j =
     (let node_id = py_round (coordinate pos (3 * j) 0) mod n_hosts;
          replication = max 1 (min 3 (py_round (coordinate pos (3 * j + 1) 1)));
          frequency_ghz = np_clip (coordinate pos (3 * j + 2) 2) (4 / 10) 2
      in (spread_replicas node_id n_hosts [1..replication - 1] [node_id], frequency_ghz))"

text \<open>The modulo raises \<open>ZeroDivisionError\<close> when the wolf has no hosts.\<close>

definition decode_task :: "real list \<Rightarrow> int \<Rightarrow> nat \<Rightarrow> py_error + int list \<times> real" where
  "decode_task pos n_hosts j =
     (if n_hosts = 0 then Inl ZeroDivisionError else Inr (decode_entry pos n_hosts j))"

fun decode_loop :: "real list \<Rightarrow> int \<Rightarrow> nat list \<Rightarrow> (nat \<rightharpoonup> int list \<times> real) \<Rightarrow>
    py_error + (nat \<rightharpoonup> int list \<times> real)" where
  "decode_loop pos n_hosts [] sched = Inr sched"
| "decode_loop pos n_hosts (j # js) sched =
     bind_err (decode_task pos n_hosts j)
       (\<lambda>entry. decode_loop pos n_hosts js (sched(j \<mapsto> entry)))"

text \<open>
  \<open>decode_position\<close> reads the wolf and its position array and writes nothing: it
  returns the schedule, or the exception, together with the store as it found it.
\<close>

definition decode_position ::
    "heap \<Rightarrow> nat \<Rightarrow> (py_error + (nat \<rightharpoonup> int list \<times> real)) \<times> heap" where
  "decode_position h w =
     (decode_loop (wolf_position h w) (num_hosts (wolf_objects h ! w))
        [0..<nat (num_tasks (wolf_objects h ! w))] Map.empty, h)"

definition update_pbest :: "heap \<Rightarrow> nat \<Rightarrow> pyfloat \<Rightarrow> heap" where
  "update_pbest h w new_fitness =
     (if pf_lt new_fitness (pbest_fitness (wolf_objects h ! w))
      then h\<lparr> arrays := arrays h @ [wolf_position h w],
              wolf_objects := (wolf_objects h)
                [w := (wolf_objects h ! w)\<lparr> pbest := length (arrays h),
                                            pbest_fitness := new_fitness \<rparr>] \<rparr>
      else h)"

subsection \<open>The optimizer\<close>

record mdgwo =
  m_num_tasks :: int
  m_num_hosts :: int
  population_size :: int
  max_iterations :: int
  memory_decay :: string
  wolves :: "nat list"
  alpha :: "nat option"
  beta :: "nat option"
  delta :: "nat option"
  iteration :: int
  best_fitness_history :: "pyfloat list"

text \<open>
  The constructor stores its arguments and checks none of them. Its result type has room
  for an exception so that a rejection could be expressed.
\<close>

definition MDGWO :: "int \<Rightarrow> int \<Rightarrow> int \<Rightarrow> int \<Rightarrow> string \<Rightarrow> py_error + mdgwo" where
  "MDGWO n_tasks n_hosts pop_size max_iter decay =
     Inr \<lparr> m_num_tasks = n_tasks, m_num_hosts = n_hosts, population_size = pop_size,
           max_iterations = max_iter, memory_decay = decay, wolves = [],
           alpha = None, beta = None, delta = None, iteration = 0,
           best_fitness_history = [] \<rparr>"

text \<open>
  \<open>sorted(self.wolves, key=...)\<close> is a stable sort that compares keys with \<open><\<close> only.
  On keys without not-a-number every stable sort gives the same list; the model is the
  stable insertion sort. On keys that are all not-a-number no comparison is true, and
  Python's sort and this one both leave the list in its order.
\<close>

fun insort_lt :: "(nat \<Rightarrow> pyfloat) \<Rightarrow> nat \<Rightarrow> nat list \<Rightarrow> nat list" where
  "insort_lt key x [] = [x]"
| "insort_lt key x (y # ys) =
     (if pf_lt (key y) (key x) then y # insort_lt key x ys else x # y # ys)"

definition py_sorted :: "(nat \<Rightarrow> pyfloat) \<Rightarrow> nat list \<Rightarrow> nat list" where
  "py_sorted key xs = foldr (insort_lt key) xs []"

definition update_leaders :: "heap \<Rightarrow> mdgwo \<Rightarrow> py_error + mdgwo" where
  "update_leaders h self =
     (let sorted_wolves = py_sorted (\<lambda>w. fitness (wolf_objects h ! w)) (wolves self)
      in case sorted_wolves of
           [] \<Rightarrow> Inl IndexError
         | a # _ \<Rightarrow>
             Inr (self\<lparr> alpha := Some a,
                        beta := Some (if 1 < length sorted_wolves then sorted_wolves ! 1 else a),
                        delta := Some (if 2 < length sorted_wolves then sorted_wolves ! 2 else a) \<rparr>))"

definition py_div_real :: "real \<Rightarrow> real \<Rightarrow> py_error + real" where
  "py_div_real a b = (if b = 0 then Inl ZeroDivisionError else Inr (a / b))"

definition memory_coefficient :: "mdgwo \<Rightarrow> int \<Rightarrow> py_error + real" where
  "memory_coefficient self it =
     (if memory_decay self = ''linear''
      then bind_err (py_div_real (of_int it) (of_int (max 1 (max_iterations self))))
             (\<lambda>q. Inr (1 - q))
      else if memory_decay self = ''exponential''
      then bind_err (py_div_real 2 (of_int (max_iterations self)))
             (\<lambda>lambda_decay. Inr (exp (- lambda_decay * of_int it)))
      else bind_err (py_div_real (of_int it) (of_int (max 1 (max_iterations self))))
             (\<lambda>q. Inr (1 - q)))"

text \<open>
  Arithmetic on two one-dimensional arrays: elementwise for equal lengths, an array of
  length one is broadcast, and other lengths raise \<open>ValueError\<close>.
\<close>

definition np_broadcast ::
    "(real \<Rightarrow> real \<Rightarrow> real) \<Rightarrow> real list \<Rightarrow> real list \<Rightarrow> py_error + real list" where
  "np_broadcast f a b =
     (if length a = length b then Inr (map2 f a b)
      else if length a = 1 then Inr (map (f (hd a)) b)
      else if length b = 1 then Inr (map (\<lambda>x. f x (hd b)) a)
      else Inl ValueError)"

fun enforce_bounds :: "int \<Rightarrow> nat \<Rightarrow> real list \<Rightarrow> real list" where
  "enforce_bounds n_hosts i [] = []"
| "enforce_bounds n_hosts i (x # xs) =
     (if i mod 3 = 0 then np_clip x 0 (of_int (n_hosts - 1))
      else if i mod 3 = 1 then np_clip x 1 3
      else np_clip x (4 / 10) 2) # enforce_bounds n_hosts (Suc i) xs"

text \<open>The new position of Eq. 19, before the bounds; every operation makes a new array.\<close>

definition new_position :: "mdgwo \<Rightarrow> heap \<Rightarrow> nat \<Rightarrow> nat \<Rightarrow> nat \<Rightarrow> nat \<Rightarrow> int \<Rightarrow>
    py_error + real list" where
  "new_position self h a b d w it =
     bind_err (memory_coefficient self it)
       (\<lambda>eta.
          bind_err (np_broadcast (+) (wolf_position h a) (wolf_position h b))
            (\<lambda>ab.
               bind_err (np_broadcast (+) ab (wolf_position h d))
                 (\<lambda>abd.
                    bind_err (np_broadcast (-) (wolf_pbest h w) (wolf_position h w))
                      (\<lambda>diff.
                         np_broadcast (+) (map (\<lambda>x. x / 3) abd) (map ((*) eta) diff)))))"

text \<open>
  \<open>update_wolf\<close> binds the wolf's \<open>position\<close> to the new array and then clips that array
  in place. The exceptions can only arise before the assignment, so a call that raises
  leaves the store as it was. The result is the exception, if any, and the store.
\<close>

definition update_wolf :: "mdgwo \<Rightarrow> heap \<Rightarrow> nat \<Rightarrow> int \<Rightarrow> py_error option \<times> heap" where
  "update_wolf self h w it =
     (case (alpha self, beta self, delta self) of
        (Some a, Some b, Some d) \<Rightarrow>
          (case new_position self h a b d w it of
             Inl e \<Rightarrow> (Some e, h)
           | Inr pos \<Rightarrow>
               (let r = length (arrays h);
                    h1 = h\<lparr> arrays := arrays h @ [pos],
                            wolf_objects := (wolf_objects h)
                              [w := (wolf_objects h ! w)\<lparr> position := r \<rparr>] \<rparr>
                in (None,
                    h1\<lparr> arrays := (arrays h1)
                          [r := enforce_bounds (m_num_hosts self) 0 (arrays h1 ! r)] \<rparr>)))
      | _ \<Rightarrow> (None, h))"

text \<open>
  The fitness function of a run is a function of the wolf's position vector. The body of
  the evaluation loop stores the wolf's fitness and updates its personal best.
\<close>

definition evaluate_wolf :: "(real list \<Rightarrow> pyfloat) \<Rightarrow> heap \<Rightarrow> nat \<Rightarrow> heap" where
  "evaluate_wolf f h w =
     (let h1 = h\<lparr> wolf_objects := (wolf_objects h)
                   [w := (wolf_objects h ! w)\<lparr> fitness := f (wolf_position h w) \<rparr>] \<rparr>
      in update_pbest h1 w (fitness (wolf_objects h1 ! w)))"

fun evaluate_wolves :: "(real list \<Rightarrow> pyfloat) \<Rightarrow> nat list \<Rightarrow> heap \<Rightarrow> heap" where
  "evaluate_wolves f [] h = h"
| "evaluate_wolves f (w # ws) h = evaluate_wolves f ws (evaluate_wolf f h w)"

fun update_pack :: "mdgwo \<Rightarrow> int \<Rightarrow> nat list \<Rightarrow> heap \<Rightarrow> py_error option \<times> heap" where
  "update_pack self it [] h = (None, h)"
| "update_pack self it (w # ws) h =
     (if Some w \<noteq> alpha self \<and> Some w \<noteq> beta self \<and> Some w \<noteq> delta self
      then (case update_wolf self h w it of
              (Some e, h') \<Rightarrow> (Some e, h')
            | (None, h') \<Rightarrow> update_pack self it ws h')
      else update_pack self it ws h)"

text \<open>One pass of the loop of \<open>optimize\<close>, without a callback.\<close>

definition generation :: "(real list \<Rightarrow> pyfloat) \<Rightarrow> int \<Rightarrow> mdgwo \<times> heap \<Rightarrow>
    py_error option \<times> mdgwo \<times> heap" where
  "generation f it st =
     (let self = fst st;
          h1 = evaluate_wolves f (wolves self) (snd st)
      in case update_leaders h1 self of
           Inl e \<Rightarrow> (Some e, self, h1)
         | Inr self1 \<Rightarrow>
             (let best_fitness =
                    (case alpha self1 of None \<Rightarrow> PInf | Some a \<Rightarrow> fitness (wolf_objects h1 ! a));
                  self2 = self1\<lparr> best_fitness_history :=
                                   best_fitness_history self1 @ [best_fitness] \<rparr>
              in case update_pack self2 it (wolves self2) h1 of
                   (Some e, h2) \<Rightarrow> (Some e, self2, h2)
                 | (None, h2) \<Rightarrow> (None, self2\<lparr> iteration := it \<rparr>, h2)))"

fun run_generations :: "(real list \<Rightarrow> pyfloat) \<Rightarrow> int list \<Rightarrow> mdgwo \<times> heap \<Rightarrow>
    py_error option \<times> mdgwo \<times> heap" where
  "run_generations f [] st = (None, st)"
| "run_generations f (it # its) st =
     (case generation f it st of
        (Some e, st') \<Rightarrow> (Some e, st')
      | (None, st') \<Rightarrow> run_generations f its st')"

text \<open>
  \<open>optimize\<close> returns the final \<alpha> wolf; its last log line reads the fitness of
  \<alpha> and raises \<open>AttributeError\<close> when there is none. The state is returned in
  every case, with the history recorded up to an exception.
\<close>

definition optimize :: "(real list \<Rightarrow> pyfloat) \<Rightarrow> mdgwo \<times> heap \<Rightarrow>
    (py_error + nat) \<times> mdgwo \<times> heap" where
  "optimize f st =
     (case run_generations f (map int [0..<nat (max_iterations (fst st))])
             ((fst st)\<lparr> best_fitness_history := [] \<rparr>, snd st) of
        (Some e, st') \<Rightarrow> (Inl e, st')
      | (None, st') \<Rightarrow>
          (case alpha (fst st') of
             None \<Rightarrow> (Inl AttributeError, st')
           | Some a \<Rightarrow> (Inr a, st')))"

definition non_increasing :: "pyfloat list \<Rightarrow> bool" where
  "non_increasing hs = (\<forall>t. 1 \<le> t \<and> t < length hs \<longrightarrow> pf_le (hs ! t) (hs ! (t - 1)))"

definition valid_population :: "mdgwo \<Rightarrow> heap \<Rightarrow> bool" where
  "valid_population self h = (\<forall>w\<in>set (wolves self). valid_wolf h w)"

subsection \<open>Example wolves and optimizers\<close>

text \<open>
  A store with three wolves for two tasks and three hosts, made by the constructor; the
  first position has a negative host coordinate, a replication coordinate on a tie, and
  frequency coordinates outside the range.
\<close>

definition example_heap :: heap where
  "example_heap =
     snd (Wolf (snd (Wolf (snd (Wolf \<lparr> arrays = [], wolf_objects = [] \<rparr>
                                   [- (8 / 5), 5 / 2, 3, 22 / 5, 1 / 5, 1 / 10] 2 3))
                      [1, 1, 1, 2, 2, 2] 2 3))
            [2, 3, 1 / 2, 0, 1, 1] 2 3)"

definition example_optimizer :: "string \<Rightarrow> mdgwo" where
  "example_optimizer decay =
     \<lparr> m_num_tasks = 2, m_num_hosts = 3, population_size = 3, max_iterations = 4,
       memory_decay = decay, wolves = [0, 1, 2], alpha = None, beta = None, delta = None,
       iteration = 0, best_fitness_history = [] \<rparr>"

text \<open>The example optimizer after a ranking: wolf 0 leads, wolf 1 is second and third.\<close>

definition led_optimizer :: mdgwo where
  "led_optimizer = (example_optimizer ''linear'')\<lparr> alpha := Some 0, beta := Some 1, delta := Some 1 \<rparr>"

subsection \<open>Invariants of a run\<close>

text \<open>The first element of a list has the least key.\<close>

definition least_first :: "(nat \<Rightarrow> pyfloat) \<Rightarrow> nat list \<Rightarrow> bool" where
  "least_first key ys = (\<forall>y\<in>set ys. pf_le (key (hd ys)) (key y))"

text \<open>
  A later store extends an earlier one: it has the same wolf objects by number, every
  array of the earlier store with its content, and every wolf that was valid is valid.
\<close>

definition heap_extends :: "heap \<Rightarrow> heap \<Rightarrow> bool" where
  "heap_extends h h' =
     (length (wolf_objects h') = length (wolf_objects h)
      \<and> length (arrays h) \<le> length (arrays h')
      \<and> (\<forall>r<length (arrays h). arrays h' ! r = arrays h ! r)
      \<and> (\<forall>v. valid_wolf h v \<longrightarrow> valid_wolf h' v))"

text \<open>
  Between two generations the wolves of the population are valid, the history so far does
  not increase, and some wolf's position has a fitness no higher than the last recorded
  best.
\<close>

definition run_invariant :: "(real list \<Rightarrow> pyfloat) \<Rightarrow> mdgwo \<times> heap \<Rightarrow> bool" where
  "run_invariant f st =
     (valid_population (fst st) (snd st)
      \<and> non_increasing (best_fitness_history (fst st))
      \<and> (best_fitness_history (fst st) \<noteq> [] \<longrightarrow>
           (\<exists>a\<in>set (wolves (fst st)).
              pf_le (f (wolf_position (snd st) a)) (last (best_fitness_history (fst st))))))"

text \<open>
  A population of four wolves for one task and three hosts, with a budget of two
  iterations, and a fitness function: the distance of the sum of the position from 11/3.
\<close>

definition pack_heap :: heap where
  "pack_heap =
     snd (Wolf (snd (Wolf (snd (Wolf (snd (Wolf \<lparr> arrays = [], wolf_objects = [] \<rparr>
        [0, 1, 1] 1 3)) [1, 2, 1] 1 3)) [2, 1, 2] 1 3)) [2, 3, 2] 1 3)"

definition pack_optimizer :: mdgwo where
  "pack_optimizer =
     \<lparr> m_num_tasks = 1, m_num_hosts = 3, population_size = 4, max_iterations = 2,
       memory_decay = ''linear'', wolves = [0, 1, 2, 3], alpha = None, beta = None,
       delta = None, iteration = 0, best_fitness_history = [] \<rparr>"

definition distance_fitness :: "real list \<Rightarrow> pyfloat" where
  "distance_fitness p = Fin \<bar>sum_list p - 11 / 3\<bar>"

text \<open>A fitness function that is not a number at every position.\<close>

definition nan_fitness :: "real list \<Rightarrow> pyfloat" where
  "nan_fitness p = NaN"

section \<open>Properties of the cost model\<close>

lemma bind_err_Inr [simp]: "bind_err (Inr v) f = f v"
  by (simp add: bind_err_def)

lemma bind_err_Inl [simp]: "bind_err (Inl e) f = Inl e"
  by (simp add: bind_err_def)

lemma transfer_time_s_eq:
  "transfer_time_s s b l = Inr (if 0 < b then Fin (s * 8 / b + l / 1000) else PInf)"
  by (simp add: transfer_time_s_def)

lemma total_transfer_time_eq:
  "total_transfer_time s b l = Inr (if 0 < b then Fin (s * 8 / b + l / 1000) else PInf)"
  by (simp add: total_transfer_time_def)

lemma task_execution_time_eq:
  "task_execution_time t h f =
     Inr (if 0 < host_cpu_mips h then Fin (workload_mi t / host_cpu_mips h) else PInf)"
  by (simp add: task_execution_time_def)

text \<open>
  C6. The execution time and the two transfer-time functions never raise: each returns a
  value for all arguments, the quotient formula when the denominator is positive and plus
  infinity when it is zero or negative.
\<close>

theorem C6_cost_functions_total:
  "task_execution_time t h f =
     Inr (if 0 < host_cpu_mips h then Fin (workload_mi t / host_cpu_mips h) else PInf)
   \<and> transfer_time_s s b l = Inr (if 0 < b then Fin (s * 8 / b + l / 1000) else PInf)
   \<and> total_transfer_time s b l = Inr (if 0 < b then Fin (s * 8 / b + l / 1000) else PInf)"
  by (simp add: task_execution_time_def transfer_time_s_def total_transfer_time_def)

section \<open>Properties of the objectives\<close>

text \<open>
  C1. The deadline term should add the deadline coefficient once for every task that is
  unassigned or whose first replica finishes after the deadline. For the task of
  \<open>late_objective\<close>, which is assigned to host 0 and finishes long after its deadline,
  the specification's term is the coefficient 100000, but the code adds nothing: its guard
  \<open>if node_id:\<close> takes the host id 0 for a missing replica.
\<close>

theorem C1_deadline_check_skips_host_zero:
  "deadline_violations late_objective late_schedule (Fin 0) = Inr (Fin 0)
   \<and> deadline_component_spec late_objective late_schedule = 100000"
  by (simp add: deadline_violations_def deadline_component_spec_def misses_deadline_def
      late_objective_def late_schedule_def ObjectiveFunction_def assign_task_def Schedule_def
      example_task_def example_fog_def FogCloudTopology_def get_host_def is_fog_node_def
      task_total_time_def total_transfer_time_eq task_execution_time_eq
      get_bandwidth_mbps_def get_latency_ms_def default_penalties_def)

text \<open>
  C4. The system reliability should lie between 0 and 1. For a host with processing rate 0
  the execution time is infinite; with failure rate 0 the exponent is the product of zero
  and infinity, and the result is not a number, which is neither at least 0 nor at most 1.
\<close>

theorem C4_reliability_not_a_number:
  "system_reliability dead_objective dead_schedule = Inr NaN
   \<and> \<not> pf_le (Fin 0) NaN \<and> \<not> pf_le NaN (Fin 1)"
  by (simp add: system_reliability_def dead_objective_def dead_schedule_def
      ObjectiveFunction_def assign_task_def Schedule_def example_task_def example_fog_def
      FogCloudTopology_def get_host_def is_fog_node_def pf_sub_def task_execution_time_eq
      node_success_probability_def task_success_with_replication_def)

subsection \<open>The CPU term\<close>

lemma dict_increment_keys: "fst ` set (dict_increment d k v) = insert k (fst ` set d)"
  by (induction d k v rule: dict_increment.induct) auto

lemma dict_increment_distinct:
  "distinct (map fst d) \<Longrightarrow> distinct (map fst (dict_increment d k v))"
proof (induction d k v rule: dict_increment.induct)
  case (1 k v)
  then show ?case by simp
next
  case (2 k' x d k v)
  then show ?case
    using dict_increment_keys [of d k v] by (auto simp: image_iff)
qed

lemma dict_increment_val:
  "dict_val (dict_increment d k v) j = dict_val d j + (if j = k then v else 0)"
  by (induction d k v rule: dict_increment.induct) (auto simp: dict_val_def)

lemma load_nodes_keys: "fst ` set (load_nodes d ns v) = fst ` set d \<union> set ns"
  by (induction d ns v rule: load_nodes.induct) (auto simp: dict_increment_keys)

lemma load_nodes_distinct: "distinct (map fst d) \<Longrightarrow> distinct (map fst (load_nodes d ns v))"
  by (induction d ns v rule: load_nodes.induct) (auto simp: dict_increment_distinct)

lemma load_nodes_val:
  "dict_val (load_nodes d ns v) j = dict_val d j + real (count_list ns j) * v"
  by (induction d ns v rule: load_nodes.induct) (auto simp: dict_increment_val algebra_simps)

lemma load_table_keys:
  "fst ` set (load_table amount sched ts d) = fst ` set d \<union> loaded_hosts sched ts"
  by (induction amount sched ts d rule: load_table.induct)
     (auto simp: loaded_hosts_def assigned_nodes_def load_nodes_keys split: option.splits)

lemma load_table_distinct:
  "distinct (map fst d) \<Longrightarrow> distinct (map fst (load_table amount sched ts d))"
  by (induction amount sched ts d rule: load_table.induct)
     (auto simp: load_nodes_distinct split: option.splits)

lemma load_table_val:
  "dict_val (load_table amount sched ts d) j = dict_val d j + total_assigned amount sched ts j"
  by (induction amount sched ts d rule: load_table.induct)
     (auto simp: total_assigned_def assigned_nodes_def load_nodes_val split: option.splits)

lemma sum_items_by_key:
  "distinct (map fst d) \<Longrightarrow>
   (\<Sum>(n, load)\<leftarrow>d. G n load) = (\<Sum>n\<in>fst ` set d. G n (dict_val d n))"
proof (induction d)
  case Nil
  then show ?case by simp
next
  case (Cons a d)
  obtain k x where a: "a = (k, x)" by (cases a)
  from Cons.prems a have notin: "k \<notin> fst ` set d" and dist: "distinct (map fst d)"
    by auto
  have same: "\<And>n. n \<in> fst ` set d \<Longrightarrow> dict_val (a # d) n = dict_val d n"
    using notin a by (auto simp: dict_val_def)
  have "(\<Sum>n\<in>fst ` set (a # d). G n (dict_val (a # d) n))
        = G k (dict_val (a # d) k) + (\<Sum>n\<in>fst ` set d. G n (dict_val (a # d) n))"
    using notin a by simp
  also have "\<dots> = G k x + (\<Sum>n\<in>fst ` set d. G n (dict_val d n))"
    using same a by (simp add: dict_val_def)
  finally show ?case using Cons.IH [OF dist] a by simp
qed

lemma capacity_loop_sum:
  "(\<forall>(n, load)\<in>set items. case get_host topo n of None \<Rightarrow> True | Some ho \<Rightarrow> capacity ho \<noteq> 0) \<Longrightarrow>
   capacity_loop topo capacity coeff items (Fin p) =
     Inr (Fin (p + coeff * (\<Sum>(n, load)\<leftarrow>items. overload topo capacity n load)))"
proof (induction items arbitrary: p)
  case Nil
  then show ?case by simp
next
  case (Cons a items)
  obtain n load where a: "a = (n, load)" by (cases a)
  show ?case
  proof (cases "get_host topo n")
    case None
    with Cons a show ?thesis by (simp add: overload_def)
  next
    case (Some ho)
    with Cons.prems a have nz: "capacity ho \<noteq> 0" by simp
    from Cons.prems have rest: "\<forall>(n, load)\<in>set items.
        case get_host topo n of None \<Rightarrow> True | Some ho \<Rightarrow> capacity ho \<noteq> 0" by simp
    show ?thesis
      using Some nz a Cons.IH [OF rest]
      by (simp add: overload_def pf_sub_def max_def algebra_simps)
  qed
qed

lemma cpu_violations_spec:
  assumes "capacities_nonzero (topology self) host_cpu_mips (loaded_hosts sched (tasks self))"
  shows "cpu_violations self sched (Fin 0) = Inr (Fin (cpu_component_spec self sched))"
proof -
  let ?d = "load_table workload_mi sched (tasks self) []"
  have keys: "fst ` set ?d = loaded_hosts sched (tasks self)"
    by (simp add: load_table_keys)
  have dist: "distinct (map fst ?d)"
    by (simp add: load_table_distinct)
  have empty: "\<And>j. dict_val [] j = 0"
    by (simp add: dict_val_def)
  have val: "\<And>j. dict_val ?d j = total_assigned workload_mi sched (tasks self) j"
    by (simp add: load_table_val empty)
  have nz: "\<forall>(n, load)\<in>set ?d.
      case get_host (topology self) n of None \<Rightarrow> True | Some ho \<Rightarrow> host_cpu_mips ho \<noteq> 0"
    using assms keys unfolding capacities_nonzero_def by force
  show ?thesis
    unfolding cpu_violations_def cpu_component_spec_def
    using capacity_loop_sum [OF nz, of "pen_cpu (penalties self)" 0]
      sum_items_by_key [OF dist, of "overload (topology self) host_cpu_mips"]
    by (simp add: keys val)
qed

lemma overload_nonneg: "0 \<le> overload topo capacity h load"
  by (simp add: overload_def split: option.splits)

lemma capacity_loop_grows:
  assumes "\<forall>(n, load)\<in>set items.
      case get_host topo n of None \<Rightarrow> True | Some ho \<Rightarrow> capacity ho \<noteq> 0"
    and "0 \<le> coeff"
  shows "\<exists>q. capacity_loop topo capacity coeff items (Fin p) = Inr (Fin q) \<and> p \<le> q"
proof -
  have "0 \<le> (\<Sum>(n, load)\<leftarrow>items. overload topo capacity n load)"
    by (rule sum_list_nonneg) (auto simp: overload_nonneg)
  then have "0 \<le> coeff * (\<Sum>(n, load)\<leftarrow>items. overload topo capacity n load)"
    using assms(2) by simp
  then show ?thesis
    using capacity_loop_sum [OF assms(1), of coeff p] by simp
qed

lemma one_host_assigned_nodes:
  "\<forall>t\<in>set ts. \<exists>a. assignments sched (task_id t) = Some a \<and> nodes a = [h] \<Longrightarrow>
   t \<in> set ts \<Longrightarrow> assigned_nodes sched t = [h]"
  by (auto simp: assigned_nodes_def)

lemma one_host_loaded:
  assumes "\<forall>t\<in>set ts. \<exists>a. assignments sched (task_id t) = Some a \<and> nodes a = [h]"
    and "ts \<noteq> []"
  shows "loaded_hosts sched ts = {h}"
proof -
  have "\<And>t. t \<in> set ts \<Longrightarrow> set (assigned_nodes sched t) = {h}"
    using one_host_assigned_nodes [OF assms(1)] by simp
  moreover have "set ts \<noteq> {}" using assms(2) by simp
  ultimately show ?thesis unfolding loaded_hosts_def by auto
qed

lemma one_host_total:
  "\<forall>t\<in>set ts. \<exists>a. assignments sched (task_id t) = Some a \<and> nodes a = [h] \<Longrightarrow>
   total_assigned amount sched ts h = sum_list (map amount ts)"
proof (induction ts)
  case Nil
  then show ?case by (simp add: total_assigned_def)
next
  case (Cons t ts)
  then have "assigned_nodes sched t = [h]"
    by (auto simp: assigned_nodes_def)
  moreover have "total_assigned amount sched ts h = sum_list (map amount ts)"
    using Cons by simp
  ultimately show ?case by (simp add: total_assigned_def)
qed

lemma task_total_time_returns:
  "\<exists>x. task_total_time t d (Some ho) f topo = Inr x"
  by (simp add: task_total_time_def total_transfer_time_eq task_execution_time_eq)

lemma deadline_loop_grows:
  assumes "get_host (topology self) h = Some ho"
    and "0 \<le> pen_deadline (penalties self)"
    and "\<forall>t\<in>set ts. \<exists>a. assignments sched (task_id t) = Some a \<and> nodes a = [h]"
  shows "\<exists>q. deadline_loop self sched ts (Fin p) = Inr (Fin q) \<and> p \<le> q"
  using assms(3)
proof (induction ts arbitrary: p)
  case Nil
  then show ?case by simp
next
  case (Cons t ts)
  from Cons.prems obtain a where a: "assignments sched (task_id t) = Some a" "nodes a = [h]"
    by auto
  from Cons.prems have rest:
    "\<forall>t\<in>set ts. \<exists>a. assignments sched (task_id t) = Some a \<and> nodes a = [h]" by simp
  obtain x where x: "task_total_time t (source_device_id t) (Some ho) (frequency a)
      (topology self) = Inr x"
    using task_total_time_returns by blast
  show ?case
  proof (cases "h = 0 \<or> \<not> pf_lt (Fin (deadline_s t)) x")
    case True
    then show ?thesis
      using a x assms(1) Cons.IH [OF rest, of p] by auto
  next
    case False
    obtain q where "deadline_loop self sched ts (Fin (p + pen_deadline (penalties self)))
        = Inr (Fin q)" "p + pen_deadline (penalties self) \<le> q"
      using Cons.IH [OF rest] by blast
    then show ?thesis
      using False a x assms(1) assms(2) by auto
  qed
qed

lemma one_host_success_probs:
  assumes "get_host topo h = Some ho" and "0 < host_cpu_mips ho"
  shows "critical_success_probs topo t f [h] [] =
     Inr [Fin (exp (- (host_failure_rate ho / 3600) * (workload_mi t / host_cpu_mips ho)))]"
  using assms by (simp add: task_execution_time_eq node_success_probability_def)

lemma reliability_penalty_loop_grows:
  assumes "get_host (topology self) h = Some ho" and "0 < host_cpu_mips ho"
    and "0 \<le> pen_reliability (penalties self)"
    and "\<forall>t\<in>set ts. \<exists>a. assignments sched (task_id t) = Some a \<and> nodes a = [h]"
  shows "\<exists>q. reliability_penalty_loop self sched ts (Fin p) = Inr (Fin q) \<and> p \<le> q"
  using assms(4)
proof (induction ts arbitrary: p)
  case Nil
  then show ?case by simp
next
  case (Cons t ts)
  from Cons.prems obtain a where a: "assignments sched (task_id t) = Some a" "nodes a = [h]"
    by auto
  from Cons.prems have rest:
    "\<forall>t\<in>set ts. \<exists>a. assignments sched (task_id t) = Some a \<and> nodes a = [h]" by simp
  define e where "e = exp (- (host_failure_rate ho / 3600) * (workload_mi t / host_cpu_mips ho))"
  have probs: "critical_success_probs (topology self) t (frequency a) (nodes a) [] = Inr [Fin e]"
    using one_host_success_probs [OF assms(1) assms(2)] a e_def by simp
  have succ: "task_success_with_replication [Fin e] = Fin e"
    by (simp add: task_success_with_replication_def pf_sub_def)
  show ?case
  proof (cases "criticality t = 0 \<or> \<not> e < min_reliability")
    case True
    then show ?thesis
      using a probs succ Cons.IH [OF rest, of p] by auto
  next
    case False
    define p' where "p' = p + pen_reliability (penalties self) * (min_reliability - e)"
    have "p \<le> p'" using False assms(3) by (simp add: p'_def)
    moreover obtain q where "reliability_penalty_loop self sched ts (Fin p') = Inr (Fin q)" "p' \<le> q"
      using Cons.IH [OF rest] by blast
    ultimately show ?thesis
      using False a probs succ by (auto simp: pf_sub_def p'_def)
  qed
qed

lemma cpu_violations_one_host:
  assumes one: "all_on_one_host self sched h ho"
    and cap: "0 < host_cpu_mips ho"
    and over: "host_cpu_mips ho < sum_list (map workload_mi (tasks self))"
    and mem: "host_memory_mb ho \<noteq> 0"
    and pens: "nonneg_penalties (penalties self)"
  shows "cpu_violations self sched (Fin 0) =
           Inr (Fin (pen_cpu (penalties self) *
                       (sum_list (map workload_mi (tasks self)) / host_cpu_mips ho - 1)))
         \<and> (\<exists>p. penalty_function self sched = Inr (Fin p) \<and> 0 < p)"
proof -
  let ?total = "sum_list (map workload_mi (tasks self))"
  let ?c = "pen_cpu (penalties self) * (?total / host_cpu_mips ho - 1)"
  from one have host: "get_host (topology self) h = Some ho"
    and allh: "\<forall>t\<in>set (tasks self). \<exists>a. assignments sched (task_id t) = Some a \<and> nodes a = [h]"
    by (auto simp: all_on_one_host_def)
  have nonempty: "tasks self \<noteq> []" using cap over by auto
  have loaded: "loaded_hosts sched (tasks self) = {h}"
    by (rule one_host_loaded [OF allh nonempty])
  have nz: "capacities_nonzero (topology self) host_cpu_mips (loaded_hosts sched (tasks self))"
    using cap host by (simp add: loaded capacities_nonzero_def)
  have ratio: "1 < ?total / host_cpu_mips ho" using cap over by simp
  have spec: "cpu_component_spec self sched = ?c"
    using ratio by (simp add: cpu_component_spec_def loaded overload_def host one_host_total [OF allh])
  have cpu: "cpu_violations self sched (Fin 0) = Inr (Fin ?c)"
    using cpu_violations_spec [OF nz] spec by simp
  have cpos: "0 < ?c" using ratio pens by (simp add: nonneg_penalties_def)
  have memkeys: "fst ` set (load_table memory_requirement_mb sched (tasks self) []) = {h}"
    by (simp add: load_table_keys loaded)
  have memnz: "\<forall>(n, load)\<in>set (load_table memory_requirement_mb sched (tasks self) []).
      case get_host (topology self) n of None \<Rightarrow> True | Some ho \<Rightarrow> host_memory_mb ho \<noteq> 0"
  proof clarify
    fix n load
    assume "(n, load) \<in> set (load_table memory_requirement_mb sched (tasks self) [])"
    then have "n \<in> fst ` set (load_table memory_requirement_mb sched (tasks self) [])"
      by force
    then have "n = h" using memkeys by simp
    then show "case get_host (topology self) n of None \<Rightarrow> True
        | Some ho \<Rightarrow> host_memory_mb ho \<noteq> 0"
      using host mem by simp
  qed
  obtain p2 where p2: "memory_violations self sched (Fin ?c) = Inr (Fin p2)" "?c \<le> p2"
    unfolding memory_violations_def
    using capacity_loop_grows [OF memnz, of "pen_memory (penalties self)" ?c] pens
    by (auto simp: nonneg_penalties_def)
  obtain p3 where p3: "deadline_violations self sched (Fin p2) = Inr (Fin p3)" "p2 \<le> p3"
    unfolding deadline_violations_def
    using deadline_loop_grows [OF host _ allh, of p2] pens
    by (auto simp: nonneg_penalties_def)
  obtain p4 where p4: "reliability_violations self sched (Fin p3) = Inr (Fin p4)" "p3 \<le> p4"
    unfolding reliability_violations_def
    using reliability_penalty_loop_grows [OF host cap _ allh, of p3] pens
    by (auto simp: nonneg_penalties_def)
  have "penalty_function self sched = Inr (Fin p4)"
    by (simp add: penalty_function_def cpu p2 p3 p4)
  moreover have "0 < p4" using cpos p2 p3 p4 by linarith
  ultimately show ?thesis using cpu by blast
qed

text \<open>
  C5. For every schedule the CPU term should be the CPU coefficient times the sum over the
  loaded hosts of \<open>max 0 (load / capacity - 1)\<close>, and with every task on one host whose
  capacity the total workload exceeds the term should be the coefficient times
  \<open>total / capacity - 1\<close> and the penalty positive. Four inputs on which this fails:
  for a loaded host with processing rate 0 the CPU section raises and has no value; for an
  overloaded host with memory capacity 0 the memory section raises and there is no
  penalty; with all coefficients 0 the penalty of an overloaded host is 0; and for a host
  with processing rate - 1, which the workload 3000 exceeds, the CPU term is 0 and not
  the coefficient times \<open>3000 / (- 1) - 1\<close>.
\<close>

theorem C5_cpu_term_fails:
  "cpu_violations dead_objective dead_schedule (Fin 0) = Inl ZeroDivisionError
   \<and> cpu_violations starved_objective crowded_schedule (Fin 0) = Inr (Fin 5000)
   \<and> penalty_function starved_objective crowded_schedule = Inl ZeroDivisionError
   \<and> penalty_function unpenalised_objective crowded_schedule = Inr (Fin 0)
   \<and> cpu_violations negative_objective crowded_schedule (Fin 0) = Inr (Fin 0)
   \<and> pen_cpu (penalties negative_objective) *
       (sum_list (map workload_mi (tasks negative_objective)) / (- 1) - 1) = - 30010000"
proof -
  have a: "cpu_violations dead_objective dead_schedule (Fin 0) = Inl ZeroDivisionError"
    by (simp add: cpu_violations_def dead_objective_def dead_schedule_def
        ObjectiveFunction_def assign_task_def Schedule_def example_task_def example_fog_def
        FogCloudTopology_def get_host_def is_fog_node_def)
  have b: "cpu_violations starved_objective crowded_schedule (Fin 0) = Inr (Fin 5000)
      \<and> penalty_function starved_objective crowded_schedule = Inl ZeroDivisionError"
    by (simp add: penalty_function_def cpu_violations_def memory_violations_def
        starved_objective_def crowded_on_def crowded_schedule_def ObjectiveFunction_def
        assign_task_def Schedule_def example_task_def example_fog_def FogCloudTopology_def
        get_host_def is_fog_node_def default_penalties_def pf_sub_def)
  have c: "penalty_function unpenalised_objective crowded_schedule = Inr (Fin 0)"
    by (simp add: penalty_function_def cpu_violations_def memory_violations_def
        deadline_violations_def reliability_violations_def unpenalised_objective_def
        crowded_on_def no_penalties_def crowded_schedule_def ObjectiveFunction_def
        assign_task_def Schedule_def example_task_def example_fog_def FogCloudTopology_def
        get_host_def is_fog_node_def pf_sub_def task_total_time_def total_transfer_time_eq
        task_execution_time_eq get_bandwidth_mbps_def get_latency_ms_def)
  have d: "cpu_violations negative_objective crowded_schedule (Fin 0) = Inr (Fin 0)
      \<and> pen_cpu (penalties negative_objective) *
          (sum_list (map workload_mi (tasks negative_objective)) / (- 1) - 1) = - 30010000"
    by (simp add: cpu_violations_def negative_objective_def crowded_on_def
        crowded_schedule_def ObjectiveFunction_def assign_task_def Schedule_def
        example_task_def example_fog_def FogCloudTopology_def get_host_def is_fog_node_def
        default_penalties_def pf_sub_def)
  from a b c d show ?thesis by simp
qed

text \<open>
  C5, amended. When no loaded host has capacity zero, the CPU term of the penalty is the CPU
  coefficient times the sum, over the hosts with any assigned load, of
  \<open>max 0 (load / capacity - 1)\<close>. When every task is assigned to one host of positive
  capacity that the total workload exceeds (and the host's memory capacity is not zero,
  the CPU coefficient is positive and the other coefficients are not negative), the CPU
  term is the coefficient times \<open>total / capacity - 1\<close> and the penalty is positive.
\<close>

theorem C5_cpu_term:
  "(capacities_nonzero (topology self) host_cpu_mips (loaded_hosts sched (tasks self)) \<longrightarrow>
      cpu_violations self sched (Fin 0) = Inr (Fin (cpu_component_spec self sched)))
   \<and> (all_on_one_host self sched h ho \<and> 0 < host_cpu_mips ho
        \<and> host_cpu_mips ho < sum_list (map workload_mi (tasks self))
        \<and> host_memory_mb ho \<noteq> 0 \<and> nonneg_penalties (penalties self) \<longrightarrow>
      cpu_violations self sched (Fin 0) =
        Inr (Fin (pen_cpu (penalties self) *
                    (sum_list (map workload_mi (tasks self)) / host_cpu_mips ho - 1)))
      \<and> (\<exists>p. penalty_function self sched = Inr (Fin p) \<and> 0 < p))"
  using cpu_violations_spec [of self sched] cpu_violations_one_host [of self sched h ho]
  by blast

theorem C5_cpu_term_witness:
  "capacities_nonzero (topology crowded_objective) host_cpu_mips
     (loaded_hosts crowded_schedule (tasks crowded_objective))
   \<and> all_on_one_host crowded_objective crowded_schedule 1 (Fog (example_fog 1 2000 (1 / 10000)))
   \<and> nonneg_penalties (penalties crowded_objective)
   \<and> cpu_component_spec crowded_objective crowded_schedule = 5000
   \<and> cpu_violations crowded_objective crowded_schedule (Fin 0) = Inr (Fin 5000)
   \<and> (\<exists>p. penalty_function crowded_objective crowded_schedule = Inr (Fin p) \<and> 0 < p)"
proof -
  let ?ho = "Fog (example_fog 1 2000 (1 / 10000))"
  have host: "get_host (topology crowded_objective) 1 = Some ?ho"
    by (simp add: crowded_objective_def ObjectiveFunction_def FogCloudTopology_def
        get_host_def is_fog_node_def example_fog_def)
  have one: "all_on_one_host crowded_objective crowded_schedule 1 ?ho"
    using host
    by (simp add: all_on_one_host_def)
       (simp add: crowded_objective_def crowded_schedule_def ObjectiveFunction_def
          assign_task_def Schedule_def example_task_def)
  have loaded: "loaded_hosts crowded_schedule (tasks crowded_objective) = {1}"
    by (simp add: loaded_hosts_def assigned_nodes_def crowded_objective_def
        crowded_schedule_def ObjectiveFunction_def assign_task_def Schedule_def
        example_task_def)
  have nz: "capacities_nonzero (topology crowded_objective) host_cpu_mips
      (loaded_hosts crowded_schedule (tasks crowded_objective))"
    using host by (simp add: loaded capacities_nonzero_def example_fog_def)
  have pens: "nonneg_penalties (penalties crowded_objective)"
    by (simp add: nonneg_penalties_def crowded_objective_def ObjectiveFunction_def
        default_penalties_def)
  have cap: "0 < host_cpu_mips ?ho" "host_memory_mb ?ho \<noteq> 0"
    by (simp_all add: example_fog_def)
  have total: "sum_list (map workload_mi (tasks crowded_objective)) = 3000"
    by (simp add: crowded_objective_def ObjectiveFunction_def example_task_def)
  have coeff: "pen_cpu (penalties crowded_objective) = 10000"
    by (simp add: crowded_objective_def ObjectiveFunction_def default_penalties_def)
  have mips: "host_cpu_mips ?ho = 2000"
    by (simp add: example_fog_def)
  have hyps: "all_on_one_host crowded_objective crowded_schedule 1 ?ho \<and> 0 < host_cpu_mips ?ho
      \<and> host_cpu_mips ?ho < sum_list (map workload_mi (tasks crowded_objective))
      \<and> host_memory_mb ?ho \<noteq> 0 \<and> nonneg_penalties (penalties crowded_objective)"
    using one pens by (simp add: total example_fog_def)
  note inst = C5_cpu_term [of crowded_objective crowded_schedule 1 ?ho]
  from inst nz
  have spec: "cpu_violations crowded_objective crowded_schedule (Fin 0) =
      Inr (Fin (cpu_component_spec crowded_objective crowded_schedule))"
    by blast
  from inst hyps
  have val: "cpu_violations crowded_objective crowded_schedule (Fin 0) =
      Inr (Fin (pen_cpu (penalties crowded_objective) *
        (sum_list (map workload_mi (tasks crowded_objective)) / host_cpu_mips ?ho - 1)))"
    and pos: "\<exists>p. penalty_function crowded_objective crowded_schedule = Inr (Fin p) \<and> 0 < p"
    by blast+
  have v: "cpu_violations crowded_objective crowded_schedule (Fin 0) = Inr (Fin 5000)"
    by (simp add: val total coeff example_fog_def)
  with spec have "cpu_component_spec crowded_objective crowded_schedule = 5000"
    by simp
  with nz one pens v pos show ?thesis by blast
qed

subsection \<open>The deadline term apart from host 0\<close>

text \<open>
  When every first replica is a host other than 0 that the topology knows, the deadline
  section adds the specification's term.
\<close>

lemma deadline_loop_spec:
  assumes "\<forall>t\<in>set ts. first_replica_checked self sched t"
  shows "deadline_loop self sched ts (Fin p) =
     Inr (Fin (p + pen_deadline (penalties self) *
                 real (length (filter (misses_deadline self sched) ts))))"
  using assms
proof (induction ts arbitrary: p)
  case Nil
  then show ?case by simp
next
  case (Cons t ts)
  from Cons.prems have chk: "first_replica_checked self sched t"
    and rest: "\<forall>t\<in>set ts. first_replica_checked self sched t" by simp_all
  note ih = Cons.IH [OF rest]
  show ?case
  proof (cases "assignments sched (task_id t)")
    case None
    then show ?thesis
      using ih by (simp add: misses_deadline_def algebra_simps)
  next
    case (Some a)
    show ?thesis
    proof (cases "nodes a")
      case Nil
      then show ?thesis using Some ih by (simp add: misses_deadline_def)
    next
      case (Cons n ns)
      with chk Some obtain ho where n0: "n \<noteq> 0" and ho: "get_host (topology self) n = Some ho"
        by (auto simp: first_replica_checked_def)
      obtain x where x: "task_total_time t (source_device_id t) (Some ho) (frequency a)
          (topology self) = Inr x"
        using task_total_time_returns by blast
      show ?thesis
        using Some Cons n0 ho x ih
        by (simp add: misses_deadline_def algebra_simps)
    qed
  qed
qed

lemma deadline_violations_spec:
  assumes "\<forall>t\<in>set (tasks self). first_replica_checked self sched t"
  shows "deadline_violations self sched (Fin p) =
     Inr (Fin (p + deadline_component_spec self sched))"
  using deadline_loop_spec [OF assms]
  by (simp add: deadline_violations_def deadline_component_spec_def)

subsection \<open>The reliability on hosts with a positive processing rate\<close>

text \<open>
  When every assigned host has a positive processing rate, the system reliability is a
  finite value from 0 to 1.
\<close>

lemma failure_product_unit:
  assumes "\<forall>p\<in>set ps. unit_prob p" and "0 \<le> q" and "q \<le> 1"
  shows "\<exists>r. failure_product (Fin q) ps = Fin r \<and> 0 \<le> r \<and> r \<le> 1"
  using assms
proof (induction ps arbitrary: q)
  case Nil
  then show ?case by simp
next
  case (Cons p ps)
  from Cons.prems(1) obtain r where r: "p = Fin r" "0 \<le> r" "r \<le> 1"
    by (auto simp: unit_prob_def)
  have "0 \<le> q * (1 - r)" using Cons.prems(2) r by simp
  moreover have "q * (1 - r) \<le> 1"
    using Cons.prems(2,3) r by (simp add: mult_le_one)
  moreover have "\<forall>p\<in>set ps. unit_prob p" using Cons.prems(1) by simp
  ultimately show ?case
    using Cons.IH [of "q * (1 - r)"] r by (simp add: pf_sub_def)
qed

lemma task_success_unit:
  assumes "\<forall>p\<in>set ps. unit_prob p"
  shows "unit_prob (task_success_with_replication ps)"
proof (cases "ps = []")
  case True
  then show ?thesis by (simp add: task_success_with_replication_def unit_prob_def)
next
  case False
  obtain r where "failure_product (Fin 1) ps = Fin r" "0 \<le> r" "r \<le> 1"
    using failure_product_unit [OF assms, of 1] by auto
  then show ?thesis
    using False by (simp add: task_success_with_replication_def unit_prob_def pf_sub_def)
qed

lemma node_success_unit:
  assumes "0 < host_cpu_mips ho" and "0 \<le> host_failure_rate ho" and "0 \<le> workload_mi t"
  shows "\<exists>p. bind_err (task_execution_time t ho f) (node_success_probability ho) = Inr p
     \<and> unit_prob p"
proof -
  have "0 \<le> host_failure_rate ho / 3600 * (workload_mi t / host_cpu_mips ho)"
    using assms by simp
  then show ?thesis
    using assms(1)
    by (simp add: task_execution_time_eq node_success_probability_def unit_prob_def)
qed

lemma replica_success_probs_unit:
  assumes "0 \<le> workload_mi t"
    and "\<forall>n\<in>set ns. case get_host topo n of None \<Rightarrow> True
           | Some ho \<Rightarrow> 0 < host_cpu_mips ho \<and> 0 \<le> host_failure_rate ho"
    and "\<forall>p\<in>set acc. unit_prob p"
  shows "\<exists>ps. replica_success_probs topo t f ns acc = Inr ps \<and> (\<forall>p\<in>set ps. unit_prob p)"
  using assms(2,3)
proof (induction ns arbitrary: acc)
  case Nil
  then show ?case by simp
next
  case (Cons n ns)
  from Cons.prems(1) have rest: "\<forall>n\<in>set ns. case get_host topo n of None \<Rightarrow> True
      | Some ho \<Rightarrow> 0 < host_cpu_mips ho \<and> 0 \<le> host_failure_rate ho" by simp
  show ?case
  proof (cases "get_host topo n")
    case None
    have "\<forall>p\<in>set (acc @ [Fin 0]). unit_prob p"
      using Cons.prems(2) by (simp add: unit_prob_def)
    then show ?thesis using None Cons.IH [OF rest] by simp
  next
    case (Some ho)
    with Cons.prems(1) have h: "0 < host_cpu_mips ho" "0 \<le> host_failure_rate ho" by simp_all
    obtain p where p: "bind_err (task_execution_time t ho f) (node_success_probability ho) = Inr p"
      "unit_prob p"
      using node_success_unit [OF h assms(1)] by blast
    from p(1) obtain e where e: "task_execution_time t ho f = Inr e"
      "node_success_probability ho e = Inr p"
      by (cases "task_execution_time t ho f") auto
    have "\<forall>q\<in>set (acc @ [p]). unit_prob q" using Cons.prems(2) p(2) by simp
    then show ?thesis using Some e Cons.IH [OF rest] by simp
  qed
qed

lemma reliability_loop_bound:
  assumes "\<forall>t\<in>set ts. 0 \<le> workload_mi t
        \<and> (\<forall>n\<in>set (assigned_nodes sched t).
              case get_host (topology self) n of
                None \<Rightarrow> True
              | Some ho \<Rightarrow> 0 < host_cpu_mips ho \<and> 0 \<le> host_failure_rate ho)"
    and "0 \<le> s"
  shows "\<exists>r. reliability_loop self sched ts (Fin s) = Inr (Fin r)
     \<and> 0 \<le> r \<and> r \<le> s + real (length ts)"
  using assms
proof (induction ts arbitrary: s)
  case Nil
  then show ?case by simp
next
  case (Cons t ts)
  from Cons.prems(1) have rest: "\<forall>t\<in>set ts. 0 \<le> workload_mi t
        \<and> (\<forall>n\<in>set (assigned_nodes sched t).
              case get_host (topology self) n of
                None \<Rightarrow> True
              | Some ho \<Rightarrow> 0 < host_cpu_mips ho \<and> 0 \<le> host_failure_rate ho)" by simp
  show ?case
  proof (cases "assignments sched (task_id t)")
    case None
    obtain r where "reliability_loop self sched ts (Fin s) = Inr (Fin r)" "0 \<le> r"
      "r \<le> s + real (length ts)"
      using Cons.IH [OF rest Cons.prems(2)] by blast
    then show ?thesis using None by auto
  next
    case (Some a)
    from Cons.prems(1) Some have w: "0 \<le> workload_mi t"
      and hs: "\<forall>n\<in>set (nodes a). case get_host (topology self) n of None \<Rightarrow> True
           | Some ho \<Rightarrow> 0 < host_cpu_mips ho \<and> 0 \<le> host_failure_rate ho"
      by (simp_all add: assigned_nodes_def)
    obtain ps where ps: "replica_success_probs (topology self) t (frequency a) (nodes a) [] = Inr ps"
      "\<forall>p\<in>set ps. unit_prob p"
      using replica_success_probs_unit [OF w hs, of "[]"] by auto
    obtain x where x: "task_success_with_replication ps = Fin x" "0 \<le> x" "x \<le> 1"
      using task_success_unit [OF ps(2)] by (auto simp: unit_prob_def)
    have "0 \<le> s + x" using Cons.prems(2) x by simp
    from Cons.IH [OF rest this]
    obtain r where "reliability_loop self sched ts (Fin (s + x)) = Inr (Fin r)" "0 \<le> r"
      "r \<le> s + x + real (length ts)"
      by blast
    then show ?thesis using Some ps x by auto
  qed
qed

lemma system_reliability_unit_interval:
  assumes "sound_hosts self sched"
  shows "\<exists>r. system_reliability self sched = Inr (Fin r) \<and> 0 \<le> r \<and> r \<le> 1"
proof (cases "tasks self = []")
  case True
  then show ?thesis by (simp add: system_reliability_def)
next
  case False
  obtain r where r: "reliability_loop self sched (tasks self) (Fin 0) = Inr (Fin r)" "0 \<le> r"
    "r \<le> real (length (tasks self))"
    using reliability_loop_bound [of "tasks self" sched self 0] assms
    by (auto simp: sound_hosts_def)
  have len: "0 < real (length (tasks self))" using False by simp
  then have "r / real (length (tasks self)) \<le> 1" using r(3) by simp
  moreover have "0 \<le> r / real (length (tasks self))" using r(2) by simp
  ultimately show ?thesis
    using False r(1) len by (simp add: system_reliability_def)
qed

section \<open>Properties of the wolf encoding and of the optimizer\<close>

text \<open>
  C2. The constructor should reject an iteration budget that is not positive. It accepts
  a budget of 0 and returns the optimizer.
\<close>

theorem C2_zero_budget_accepted: "MDGWO 10 5 100 0 ''linear'' =
     Inr \<lparr> m_num_tasks = 10, m_num_hosts = 5, population_size = 100, max_iterations = 0,
           memory_decay = ''linear'', wolves = [], alpha = None, beta = None, delta = None,
           iteration = 0, best_fitness_history = [] \<rparr>"
  by (simp add: MDGWO_def)

text \<open>
  C2, amended. The constructor never rejects: for all hyperparameters, valid or not, it
  returns an optimizer that stores them as given, with no wolves, no leaders and an empty
  history.
\<close>

theorem C2_constructor_accepts_all: "\<exists>self. MDGWO n_tasks n_hosts pop_size max_iter decay = Inr self
     \<and> m_num_tasks self = n_tasks \<and> m_num_hosts self = n_hosts
     \<and> population_size self = pop_size \<and> max_iterations self = max_iter
     \<and> memory_decay self = decay \<and> wolves self = []
     \<and> alpha self = None \<and> beta self = None \<and> delta self = None
     \<and> iteration self = 0 \<and> best_fitness_history self = []"
  by (simp add: MDGWO_def)

subsection \<open>Memory coefficient\<close>

lemma memory_linear:
  "memory_decay self \<noteq> ''exponential'' \<Longrightarrow>
   memory_coefficient self it = Inr (1 - of_int it / of_int (max 1 (max_iterations self)))"
  by (simp add: memory_coefficient_def py_div_real_def)

lemma memory_exponential:
  "memory_decay self = ''exponential'' \<Longrightarrow> max_iterations self \<noteq> 0 \<Longrightarrow>
   memory_coefficient self it = Inr (exp (- (2 / of_int (max_iterations self)) * of_int it))"
  by (simp add: memory_coefficient_def py_div_real_def)

text \<open>
  C9. With an iteration budget of at least 1, the linear scheme gives 1 at iteration 0 and
  0 at the last iteration; the exponential scheme gives 1 at iteration 0, the value
  \<open>exp (- (2 / max_iterations) * t)\<close> at every iteration \<open>t\<close>, and a strictly smaller
  value at a later iteration.
\<close>

theorem C9_memory_coefficient:
  assumes "1 \<le> max_iterations self"
  shows "(memory_decay self = ''linear'' \<longrightarrow>
            memory_coefficient self 0 = Inr 1
            \<and> memory_coefficient self (max_iterations self) = Inr 0)
       \<and> (memory_decay self = ''exponential'' \<longrightarrow>
            memory_coefficient self 0 = Inr 1
            \<and> (\<forall>t. memory_coefficient self t =
                   Inr (exp (- (2 / of_int (max_iterations self)) * of_int t)))
            \<and> (\<forall>s t. s < t \<longrightarrow>
                  (\<exists>a b. memory_coefficient self s = Inr a \<and> memory_coefficient self t = Inr b
                         \<and> b < a)))"
proof (intro conjI impI)
  assume lin: "memory_decay self = ''linear''"
  then have ne: "memory_decay self \<noteq> ''exponential''" by simp
  show "memory_coefficient self 0 = Inr 1"
    by (simp add: memory_linear [OF ne])
  show "memory_coefficient self (max_iterations self) = Inr 0"
    using assms by (simp add: memory_linear [OF ne] max_def)
next
  assume ex: "memory_decay self = ''exponential''"
  from assms have nz: "max_iterations self \<noteq> 0" by simp
  show "memory_coefficient self 0 = Inr 1"
    by (simp add: memory_exponential [OF ex nz])
  show "\<forall>t. memory_coefficient self t =
      Inr (exp (- (2 / of_int (max_iterations self)) * of_int t))"
    by (simp add: memory_exponential [OF ex nz])
  show "\<forall>s t. s < t \<longrightarrow>
      (\<exists>a b. memory_coefficient self s = Inr a \<and> memory_coefficient self t = Inr b \<and> b < a)"
  proof (intro allI impI)
    fix s t :: int
    assume st: "s < t"
    have pos: "0 < 2 / (of_int (max_iterations self) :: real)" using assms by simp
    have "(2 / of_int (max_iterations self)) * (of_int s :: real)
        < (2 / of_int (max_iterations self)) * of_int t"
      using st pos by (intro mult_strict_left_mono) simp_all
    then have "exp (- (2 / of_int (max_iterations self)) * (of_int t :: real))
        < exp (- (2 / of_int (max_iterations self)) * of_int s)"
      by simp
    then show "\<exists>a b. memory_coefficient self s = Inr a \<and> memory_coefficient self t = Inr b
        \<and> b < a"
      by (simp add: memory_exponential [OF ex nz])
  qed
qed

theorem C9_memory_coefficient_witness:
  "1 \<le> max_iterations (example_optimizer ''linear'')
   \<and> 1 \<le> max_iterations (example_optimizer ''exponential'')
   \<and> memory_coefficient (example_optimizer ''linear'') 0 = Inr 1
   \<and> memory_coefficient (example_optimizer ''linear'') 4 = Inr 0
   \<and> memory_coefficient (example_optimizer ''exponential'') 0 = Inr 1
   \<and> (\<exists>a b. memory_coefficient (example_optimizer ''exponential'') 1 = Inr a
          \<and> memory_coefficient (example_optimizer ''exponential'') 2 = Inr b \<and> b < a)"
proof -
  have lin: "1 \<le> max_iterations (example_optimizer ''linear'')"
    "memory_decay (example_optimizer ''linear'') = ''linear''"
    "max_iterations (example_optimizer ''linear'') = 4"
    by (simp_all add: example_optimizer_def)
  have ex: "1 \<le> max_iterations (example_optimizer ''exponential'')"
    "memory_decay (example_optimizer ''exponential'') = ''exponential''"
    by (simp_all add: example_optimizer_def)
  have order: "(1::int) < 2" by simp
  from C9_memory_coefficient [OF lin(1)] lin(2) lin(3)
  have a: "memory_coefficient (example_optimizer ''linear'') 0 = Inr 1"
    "memory_coefficient (example_optimizer ''linear'') 4 = Inr 0"
    by simp_all
  from C9_memory_coefficient [OF ex(1)] ex(2)
  have b: "memory_coefficient (example_optimizer ''exponential'') 0 = Inr 1"
    and c: "\<forall>s t. s < t \<longrightarrow>
      (\<exists>a b. memory_coefficient (example_optimizer ''exponential'') s = Inr a
             \<and> memory_coefficient (example_optimizer ''exponential'') t = Inr b \<and> b < a)"
    by blast+
  from c order have "\<exists>a b. memory_coefficient (example_optimizer ''exponential'') 1 = Inr a
      \<and> memory_coefficient (example_optimizer ''exponential'') 2 = Inr b \<and> b < a"
    by blast
  with lin(1) ex(1) a b show ?thesis by blast
qed

subsection \<open>Decoding\<close>

text \<open>
  C7. Decoding leaves the store, and so every field and array of every wolf, as it was,
  and decoding again in the store it leaves gives the same result.
\<close>

theorem C7_decode_pure: "snd (decode_position h w) = h
   \<and> fst (decode_position (snd (decode_position h w)) w) = fst (decode_position h w)"
  by (simp add: decode_position_def)

lemma spread_replicas_length:
  "length (spread_replicas p n rs acc) = length acc + length rs"
  by (induction p n rs acc rule: spread_replicas.induct) auto

lemma spread_replicas_range:
  "0 < n \<Longrightarrow> \<forall>i\<in>set acc. 0 \<le> i \<and> i < n \<Longrightarrow>
   \<forall>i\<in>set (spread_replicas p n rs acc). 0 \<le> i \<and> i < n"
proof (induction p n rs acc rule: spread_replicas.induct)
  case (1 p n acc)
  then show ?case by simp
next
  case (2 p n r rs acc)
  have "0 \<le> (p + r) mod n \<and> (p + r) mod n < n"
    using "2.prems"(1) by simp
  with "2.prems"(2) have ext: "\<forall>i\<in>set (acc @ [(p + r) mod n]). 0 \<le> i \<and> i < n"
    by simp
  show ?case
    unfolding spread_replicas.simps by (rule "2.IH" [OF "2.prems"(1) ext])
qed

lemma decode_loop_map:
  "n \<noteq> 0 \<Longrightarrow>
   decode_loop pos n js sched =
     Inr (\<lambda>j. if j \<in> set js then Some (decode_entry pos n j) else sched j)"
proof (induction js arbitrary: sched)
  case Nil
  then show ?case by simp
next
  case (Cons j js)
  then show ?case by (auto simp: decode_task_def fun_eq_iff)
qed

lemma np_clip_range: "lo \<le> hi \<Longrightarrow> lo \<le> np_clip x lo hi \<and> np_clip x lo hi \<le> hi"
  by (auto simp: np_clip_def)

lemma decode_entry_props:
  assumes "0 < n"
  shows "fst (decode_entry pos n j) \<noteq> []"
    and "int (length (fst (decode_entry pos n j))) =
           max 1 (min 3 (py_round (coordinate pos (3 * j + 1) 1)))"
    and "\<forall>i\<in>set (fst (decode_entry pos n j)). 0 \<le> i \<and> i < n"
    and "snd (decode_entry pos n j) = np_clip (coordinate pos (3 * j + 2) 2) (4 / 10) 2"
proof -
  let ?k = "max 1 (min 3 (py_round (coordinate pos (3 * j + 1) 1)))"
  let ?p = "py_round (coordinate pos (3 * j) 0) mod n"
  have ids: "fst (decode_entry pos n j) = spread_replicas ?p n [1..?k - 1] [?p]"
    by (simp add: decode_entry_def Let_def)
  have len: "length (fst (decode_entry pos n j)) = 1 + nat (?k - 1)"
    by (simp add: ids spread_replicas_length)
  show "fst (decode_entry pos n j) \<noteq> []" using len by auto
  show "int (length (fst (decode_entry pos n j))) = ?k" using len by simp
  have "\<forall>i\<in>set [?p]. 0 \<le> i \<and> i < n" using assms by simp
  then show "\<forall>i\<in>set (fst (decode_entry pos n j)). 0 \<le> i \<and> i < n"
    unfolding ids by (rule spread_replicas_range [OF assms])
  show "snd (decode_entry pos n j) = np_clip (coordinate pos (3 * j + 2) 2) (4 / 10) 2"
    by (simp add: decode_entry_def Let_def)
qed

text \<open>
  C8. For a wolf with at least one host whose position has at least three entries per
  task, decoding returns a schedule that gives every task index below the number of tasks
  a replica list that is not empty, whose length is the rounded replication coordinate
  clamped to 1..3, whose host ids lie from 0 up to but not including the number of hosts,
  and a frequency that is the frequency coordinate clipped to [0.4, 2.0].
\<close>

theorem C8_decode_schedule:
  assumes hosts: "0 < num_hosts (wolf_objects h ! w)"
    and len: "3 * num_tasks (wolf_objects h ! w) \<le> int (length (wolf_position h w))"
  shows "\<exists>sched. fst (decode_position h w) = Inr sched
     \<and> (\<forall>j<nat (num_tasks (wolf_objects h ! w)).
          \<exists>ids freq. sched j = Some (ids, freq)
            \<and> ids \<noteq> []
            \<and> int (length ids) = max 1 (min 3 (py_round (wolf_position h w ! (3 * j + 1))))
            \<and> 1 \<le> length ids \<and> length ids \<le> 3
            \<and> (\<forall>i\<in>set ids. 0 \<le> i \<and> i < num_hosts (wolf_objects h ! w))
            \<and> freq = np_clip (wolf_position h w ! (3 * j + 2)) (4 / 10) 2
            \<and> 4 / 10 \<le> freq \<and> freq \<le> 2)"
proof -
  let ?pos = "wolf_position h w"
  let ?n = "num_hosts (wolf_objects h ! w)"
  let ?t = "nat (num_tasks (wolf_objects h ! w))"
  let ?sched = "\<lambda>j. if j \<in> set [0..<?t] then Some (decode_entry ?pos ?n j) else None"
  from hosts have nz: "?n \<noteq> 0" by simp
  have res: "fst (decode_position h w) = Inr ?sched"
    by (simp add: decode_position_def decode_loop_map [OF nz])
  have "\<exists>ids freq. ?sched j = Some (ids, freq)
            \<and> ids \<noteq> []
            \<and> int (length ids) = max 1 (min 3 (py_round (?pos ! (3 * j + 1))))
            \<and> 1 \<le> length ids \<and> length ids \<le> 3
            \<and> (\<forall>i\<in>set ids. 0 \<le> i \<and> i < ?n)
            \<and> freq = np_clip (?pos ! (3 * j + 2)) (4 / 10) 2
            \<and> 4 / 10 \<le> freq \<and> freq \<le> 2" if j: "j < ?t" for j
  proof -
    from j len have in1: "3 * j + 1 < length ?pos" and in2: "3 * j + 2 < length ?pos"
      by linarith+
    have c1: "coordinate ?pos (3 * j + 1) 1 = ?pos ! (3 * j + 1)"
      and c2: "coordinate ?pos (3 * j + 2) 2 = ?pos ! (3 * j + 2)"
      using in1 in2 by (simp_all add: coordinate_def)
    note p = decode_entry_props [OF hosts, of ?pos j]
    have l: "int (length (fst (decode_entry ?pos ?n j))) =
        max 1 (min 3 (py_round (?pos ! (3 * j + 1))))"
      using p(2) c1 by simp
    then have b: "1 \<le> length (fst (decode_entry ?pos ?n j))"
        "length (fst (decode_entry ?pos ?n j)) \<le> 3"
      by linarith+
    have f: "snd (decode_entry ?pos ?n j) = np_clip (?pos ! (3 * j + 2)) (4 / 10) 2"
      using p(4) c2 by simp
    have r: "4 / 10 \<le> snd (decode_entry ?pos ?n j)" "snd (decode_entry ?pos ?n j) \<le> 2"
      using np_clip_range [of "4 / 10" 2 "?pos ! (3 * j + 2)"] f by simp_all
    have s: "?sched j = Some (fst (decode_entry ?pos ?n j), snd (decode_entry ?pos ?n j))"
      using j by simp
    show ?thesis
    proof (intro exI conjI)
      show "?sched j = Some (fst (decode_entry ?pos ?n j), snd (decode_entry ?pos ?n j))"
        by (rule s)
    qed (use p(1) p(3) l b f r in simp_all)
  qed
  then have all: "\<forall>j<?t. \<exists>ids freq. ?sched j = Some (ids, freq)
            \<and> ids \<noteq> []
            \<and> int (length ids) = max 1 (min 3 (py_round (?pos ! (3 * j + 1))))
            \<and> 1 \<le> length ids \<and> length ids \<le> 3
            \<and> (\<forall>i\<in>set ids. 0 \<le> i \<and> i < ?n)
            \<and> freq = np_clip (?pos ! (3 * j + 2)) (4 / 10) 2
            \<and> 4 / 10 \<le> freq \<and> freq \<le> 2"
    by (intro allI impI)
  show ?thesis
    by (rule exI [of _ ?sched], rule conjI, rule res, rule all)
qed

lemma example_heap_eq:
  "example_heap =
     \<lparr> arrays = [[- (8 / 5), 5 / 2, 3, 22 / 5, 1 / 5, 1 / 10],
                 [- (8 / 5), 5 / 2, 3, 22 / 5, 1 / 5, 1 / 10],
                 [1, 1, 1, 2, 2, 2], [1, 1, 1, 2, 2, 2],
                 [2, 3, 1 / 2, 0, 1, 1], [2, 3, 1 / 2, 0, 1, 1]],
       wolf_objects =
         [\<lparr> position = 0, num_tasks = 2, num_hosts = 3, fitness = PInf, pbest = 1,
             pbest_fitness = PInf \<rparr>,
          \<lparr> position = 2, num_tasks = 2, num_hosts = 3, fitness = PInf, pbest = 3,
             pbest_fitness = PInf \<rparr>,
          \<lparr> position = 4, num_tasks = 2, num_hosts = 3, fitness = PInf, pbest = 5,
             pbest_fitness = PInf \<rparr>] \<rparr>"
  by (simp add: example_heap_def Wolf_def)

lemma py_round_examples:
  "py_round (- (8 / 5)) = - 2" "py_round (5 / 2) = 2" "py_round (22 / 5) = 4"
  "py_round (1 / 5) = 0"
  by (simp_all add: py_round_def Let_def)

lemma upto_examples: "[1..(1::int)] = [1]" "[1..(0::int)] = []"
  by (simp_all add: upto.simps)

lemma example_decoded:
  "\<exists>sched. fst (decode_position example_heap 0) = Inr sched
     \<and> sched 0 = Some ([1, 2], 2) \<and> sched 1 = Some ([1], 4 / 10)"
  by (simp add: decode_position_def decode_task_def decode_entry_def wolf_position_def
      example_heap_eq coordinate_def py_round_examples np_clip_def upto_examples
      numeral_2_eq_2)

theorem C8_decode_schedule_witness:
  "0 < num_hosts (wolf_objects example_heap ! 0)
   \<and> 3 * num_tasks (wolf_objects example_heap ! 0) \<le> int (length (wolf_position example_heap 0))
   \<and> (\<exists>sched. fst (decode_position example_heap 0) = Inr sched
         \<and> sched 0 = Some ([1, 2], 2) \<and> sched 1 = Some ([1], 4 / 10)
         \<and> (\<forall>j<2. \<exists>ids freq. sched j = Some (ids, freq)
               \<and> 1 \<le> length ids \<and> length ids \<le> 3
               \<and> (\<forall>i\<in>set ids. 0 \<le> i \<and> i < 3)
               \<and> 4 / 10 \<le> freq \<and> freq \<le> 2))"
proof -
  have hosts: "0 < num_hosts (wolf_objects example_heap ! 0)"
    and hosts3: "num_hosts (wolf_objects example_heap ! 0) = 3"
    and tasks2: "nat (num_tasks (wolf_objects example_heap ! 0)) = 2"
    by (simp_all add: example_heap_eq)
  have len: "3 * num_tasks (wolf_objects example_heap ! 0)
      \<le> int (length (wolf_position example_heap 0))"
    by (simp add: example_heap_eq wolf_position_def)
  obtain sched where s: "fst (decode_position example_heap 0) = Inr sched"
    and all: "\<forall>j<nat (num_tasks (wolf_objects example_heap ! 0)).
          \<exists>ids freq. sched j = Some (ids, freq)
            \<and> ids \<noteq> []
            \<and> int (length ids) =
                max 1 (min 3 (py_round (wolf_position example_heap 0 ! (3 * j + 1))))
            \<and> 1 \<le> length ids \<and> length ids \<le> 3
            \<and> (\<forall>i\<in>set ids. 0 \<le> i \<and> i < num_hosts (wolf_objects example_heap ! 0))
            \<and> freq = np_clip (wolf_position example_heap 0 ! (3 * j + 2)) (4 / 10) 2
            \<and> 4 / 10 \<le> freq \<and> freq \<le> 2"
    using C8_decode_schedule [OF hosts len] by blast
  from all have bounds: "\<forall>j<2. \<exists>ids freq. sched j = Some (ids, freq)
               \<and> 1 \<le> length ids \<and> length ids \<le> 3
               \<and> (\<forall>i\<in>set ids. 0 \<le> i \<and> i < 3)
               \<and> 4 / 10 \<le> freq \<and> freq \<le> 2"
    unfolding hosts3 tasks2 by blast
  from example_decoded s have vals: "sched 0 = Some ([1, 2], 2)" "sched 1 = Some ([1], 4 / 10)"
    by auto
  show ?thesis
    using hosts len s vals bounds by blast
qed

subsection \<open>Position update\<close>

text \<open>
  A call of \<open>update_wolf\<close> either leaves the store as it was, or appends one array and
  points the wolf's \<open>position\<close> at it.
\<close>

lemma update_wolf_cases:
  "snd (update_wolf self h w it) = h
   \<or> (\<exists>pos. arrays (snd (update_wolf self h w it)) = arrays h @ [pos]
          \<and> wolf_objects (snd (update_wolf self h w it)) =
              (wolf_objects h)[w := (wolf_objects h ! w)\<lparr> position := length (arrays h) \<rparr>])"
  by (auto simp: update_wolf_def Let_def split: option.splits sum.splits)

text \<open>
  C10. After \<open>update_wolf\<close> on a wolf, whether it returned or raised, the wolf's
  fitness, personal best (the reference and the array's content), personal-best fitness,
  number of tasks and number of hosts are as before; every other wolf object and its
  position vector are as before, in particular those of the leaders \<alpha>, \<beta>
  and \<delta> when they are not the updated wolf.
\<close>

theorem C10_update_wolf_frame:
  assumes "valid_wolf h w"
  shows "fitness (wolf_objects (snd (update_wolf self h w it)) ! w) = fitness (wolf_objects h ! w)
   \<and> pbest (wolf_objects (snd (update_wolf self h w it)) ! w) = pbest (wolf_objects h ! w)
   \<and> wolf_pbest (snd (update_wolf self h w it)) w = wolf_pbest h w
   \<and> pbest_fitness (wolf_objects (snd (update_wolf self h w it)) ! w)
       = pbest_fitness (wolf_objects h ! w)
   \<and> num_tasks (wolf_objects (snd (update_wolf self h w it)) ! w) = num_tasks (wolf_objects h ! w)
   \<and> num_hosts (wolf_objects (snd (update_wolf self h w it)) ! w) = num_hosts (wolf_objects h ! w)
   \<and> (\<forall>l. l \<noteq> w \<and> valid_wolf h l \<longrightarrow>
         wolf_objects (snd (update_wolf self h w it)) ! l = wolf_objects h ! l
         \<and> wolf_position (snd (update_wolf self h w it)) l = wolf_position h l)
   \<and> (\<forall>l. (alpha self = Some l \<or> beta self = Some l \<or> delta self = Some l)
           \<and> l \<noteq> w \<and> valid_wolf h l \<longrightarrow>
         wolf_position (snd (update_wolf self h w it)) l = wolf_position h l)"
proof -
  let ?h' = "snd (update_wolf self h w it)"
  consider (same) "?h' = h"
    | (moved) pos where "arrays ?h' = arrays h @ [pos]"
        "wolf_objects ?h' =
           (wolf_objects h)[w := (wolf_objects h ! w)\<lparr> position := length (arrays h) \<rparr>]"
    using update_wolf_cases [of self h w it] by blast
  then show ?thesis
  proof cases
    case same
    then show ?thesis by simp
  next
    case moved
    from assms have w: "w < length (wolf_objects h)"
      and pb: "pbest (wolf_objects h ! w) < length (arrays h)"
      by (simp_all add: valid_wolf_def)
    have own: "wolf_objects ?h' ! w = (wolf_objects h ! w)\<lparr> position := length (arrays h) \<rparr>"
      using w by (simp add: moved(2))
    have other: "wolf_objects ?h' ! l = wolf_objects h ! l
        \<and> wolf_position ?h' l = wolf_position h l" if "l \<noteq> w" "valid_wolf h l" for l
    proof -
      have o: "wolf_objects ?h' ! l = wolf_objects h ! l"
        using that(1) by (simp add: moved(2))
      have "position (wolf_objects h ! l) < length (arrays h)"
        using that(2) by (simp add: valid_wolf_def)
      then show ?thesis
        by (simp add: o wolf_position_def moved(1) nth_append)
    qed
    have pbc: "wolf_pbest ?h' w = wolf_pbest h w"
      using pb by (simp add: wolf_pbest_def own moved(1) nth_append)
    show ?thesis
      using other pbc by (simp add: own)
  qed
qed

lemma example_update:
  "wolf_position (snd (update_wolf led_optimizer example_heap 2 1)) 2
     = [2 / 15, 3 / 2, 5 / 3, 2, 7 / 5, 41 / 30]
   \<and> wolf_position example_heap 2 = [2, 3, 1 / 2, 0, 1, 1]
   \<and> fst (update_wolf led_optimizer example_heap 2 1) = None"
  by (simp add: update_wolf_def led_optimizer_def example_optimizer_def new_position_def
      memory_linear wolf_position_def wolf_pbest_def example_heap_eq np_broadcast_def
      Let_def np_clip_def)

theorem C10_update_wolf_frame_witness:
  "valid_wolf example_heap 2 \<and> valid_wolf example_heap 0 \<and> valid_wolf example_heap 1
   \<and> alpha led_optimizer = Some 0 \<and> beta led_optimizer = Some 1
   \<and> wolf_position example_heap 2 = [2, 3, 1 / 2, 0, 1, 1]
   \<and> wolf_position (snd (update_wolf led_optimizer example_heap 2 1)) 2
        = [2 / 15, 3 / 2, 5 / 3, 2, 7 / 5, 41 / 30]
   \<and> fitness (wolf_objects (snd (update_wolf led_optimizer example_heap 2 1)) ! 2) = PInf
   \<and> wolf_pbest (snd (update_wolf led_optimizer example_heap 2 1)) 2 = [2, 3, 1 / 2, 0, 1, 1]
   \<and> wolf_position (snd (update_wolf led_optimizer example_heap 2 1)) 0
        = [- (8 / 5), 5 / 2, 3, 22 / 5, 1 / 5, 1 / 10]
   \<and> wolf_position (snd (update_wolf led_optimizer example_heap 2 1)) 1 = [1, 1, 1, 2, 2, 2]"
proof -
  have v: "valid_wolf example_heap 2" "valid_wolf example_heap 0" "valid_wolf example_heap 1"
    by (simp_all add: valid_wolf_def example_heap_eq)
  have leaders: "alpha led_optimizer = Some 0" "beta led_optimizer = Some 1"
    by (simp_all add: led_optimizer_def)
  have before: "fitness (wolf_objects example_heap ! 2) = PInf"
    "wolf_pbest example_heap 2 = [2, 3, 1 / 2, 0, 1, 1]"
    "wolf_position example_heap 0 = [- (8 / 5), 5 / 2, 3, 22 / 5, 1 / 5, 1 / 10]"
    "wolf_position example_heap 1 = [1, 1, 1, 2, 2, 2]"
    by (simp_all add: example_heap_eq wolf_pbest_def wolf_position_def)
  note frame = C10_update_wolf_frame [OF v(1), of led_optimizer 1]
  from frame before(1)
  have a: "fitness (wolf_objects (snd (update_wolf led_optimizer example_heap 2 1)) ! 2) = PInf"
    by simp
  from frame before(2)
  have b: "wolf_pbest (snd (update_wolf led_optimizer example_heap 2 1)) 2
      = [2, 3, 1 / 2, 0, 1, 1]"
    by simp
  from frame leaders(1) v(2) before(3)
  have c: "wolf_position (snd (update_wolf led_optimizer example_heap 2 1)) 0
      = [- (8 / 5), 5 / 2, 3, 22 / 5, 1 / 5, 1 / 10]"
    by simp
  from frame leaders(2) v(3) before(4)
  have d: "wolf_position (snd (update_wolf led_optimizer example_heap 2 1)) 1 = [1, 1, 1, 2, 2, 2]"
    by simp
  show ?thesis
    using v leaders example_update a b c d by simp
qed

subsection \<open>The best fitness per generation\<close>

lemma pf_le_refl: "a \<noteq> NaN \<Longrightarrow> pf_le a a"
  by (cases a) simp_all

lemma pf_le_trans: "pf_le a b \<Longrightarrow> pf_le b c \<Longrightarrow> pf_le a c"
  by (cases a; cases b; cases c) simp_all

lemma pf_lt_imp_le: "pf_lt a b \<Longrightarrow> pf_le a b"
  by (cases a; cases b) simp_all

lemma pf_not_lt_imp_le: "a \<noteq> NaN \<Longrightarrow> b \<noteq> NaN \<Longrightarrow> \<not> pf_lt a b \<Longrightarrow> pf_le b a"
  by (cases a; cases b) simp_all

lemma set_insort_lt: "set (insort_lt key x ys) = insert x (set ys)"
  by (induction ys) auto

lemma set_py_sorted: "set (py_sorted key xs) = set xs"
  unfolding py_sorted_def by (induction xs) (simp_all add: set_insort_lt)

lemma least_first_insort:
  assumes "key x \<noteq> NaN" and "\<forall>y\<in>set ys. key y \<noteq> NaN" and "least_first key ys"
  shows "least_first key (insort_lt key x ys)"
proof (cases ys)
  case Nil
  then show ?thesis using assms(1) by (simp add: least_first_def pf_le_refl)
next
  case (Cons y ys')
  have ynan: "key y \<noteq> NaN" using assms(2) Cons by simp
  have miny: "\<forall>z\<in>set ys'. pf_le (key y) (key z)"
    using assms(3) Cons by (simp add: least_first_def)
  show ?thesis
  proof (cases "pf_lt (key y) (key x)")
    case True
    then have "pf_le (key y) (key x)" by (rule pf_lt_imp_le)
    then show ?thesis
      using True Cons miny ynan
      by (simp add: least_first_def set_insort_lt pf_le_refl)
  next
    case False
    then have xy: "pf_le (key x) (key y)"
      using pf_not_lt_imp_le [OF ynan assms(1)] by simp
    then have "\<forall>z\<in>set ys'. pf_le (key x) (key z)"
      using miny pf_le_trans by blast
    then show ?thesis
      using False Cons xy assms(1) by (simp add: least_first_def pf_le_refl)
  qed
qed

lemma least_first_py_sorted:
  "\<forall>y\<in>set xs. key y \<noteq> NaN \<Longrightarrow> least_first key (py_sorted key xs)"
proof (induction xs)
  case Nil
  then show ?case by (simp add: py_sorted_def least_first_def)
next
  case (Cons x xs)
  have "least_first key (py_sorted key xs)" using Cons by simp
  moreover have "\<forall>y\<in>set (py_sorted key xs). key y \<noteq> NaN"
    using Cons.prems by (simp add: set_py_sorted)
  moreover have "key x \<noteq> NaN" using Cons.prems by simp
  ultimately have "least_first key (insort_lt key x (py_sorted key xs))"
    by (intro least_first_insort)
  then show ?case by (simp add: py_sorted_def)
qed

lemma update_leaders_empty: "wolves self = [] \<Longrightarrow> update_leaders h self = Inl IndexError"
  by (simp add: update_leaders_def py_sorted_def)

lemma update_leaders_best:
  assumes "wolves self \<noteq> []"
    and "\<forall>w\<in>set (wolves self). fitness (wolf_objects h ! w) \<noteq> NaN"
  shows "\<exists>self1 a. update_leaders h self = Inr self1
     \<and> alpha self1 = Some a \<and> beta self1 \<noteq> None \<and> delta self1 \<noteq> None
     \<and> a \<in> set (wolves self)
     \<and> (\<forall>w\<in>set (wolves self). pf_le (fitness (wolf_objects h ! a)) (fitness (wolf_objects h ! w)))
     \<and> wolves self1 = wolves self
     \<and> best_fitness_history self1 = best_fitness_history self"
proof -
  let ?key = "\<lambda>w. fitness (wolf_objects h ! w)"
  let ?s = "py_sorted ?key (wolves self)"
  have "set ?s = set (wolves self)" by (rule set_py_sorted)
  with assms(1) obtain a rest where s: "?s = a # rest"
    by (cases ?s) auto
  have mem: "a \<in> set (wolves self)"
    using s set_py_sorted [of ?key "wolves self"] by auto
  have "least_first ?key ?s"
    using assms(2) by (rule least_first_py_sorted)
  then have "\<forall>w\<in>set ?s. pf_le (?key (hd ?s)) (?key w)"
    by (simp add: least_first_def)
  then have "\<forall>w\<in>set (a # rest). pf_le (?key a) (?key w)"
    by (simp only: s list.sel)
  moreover have "set (wolves self) = set (a # rest)"
    using set_py_sorted [of ?key "wolves self"] s by simp
  ultimately have least: "\<forall>w\<in>set (wolves self). pf_le (?key a) (?key w)"
    by simp
  show ?thesis
    using s mem least by (simp add: update_leaders_def Let_def)
qed

lemma heap_extends_refl: "heap_extends h h"
  by (simp add: heap_extends_def)

lemma heap_extends_trans:
  "heap_extends h1 h2 \<Longrightarrow> heap_extends h2 h3 \<Longrightarrow> heap_extends h1 h3"
  by (auto simp: heap_extends_def)

lemma wolf_position_kept:
  assumes "heap_extends h h'" and "position (wolf_objects h' ! v) = position (wolf_objects h ! v)"
    and "valid_wolf h v"
  shows "wolf_position h' v = wolf_position h v"
proof -
  have "position (wolf_objects h ! v) < length (arrays h)"
    using assms(3) by (simp add: valid_wolf_def)
  then show ?thesis
    using assms(1) assms(2) by (simp add: wolf_position_def heap_extends_def)
qed

lemma update_pbest_cases:
  "update_pbest h w x = h
   \<or> (arrays (update_pbest h w x) = arrays h @ [wolf_position h w]
      \<and> wolf_objects (update_pbest h w x) =
          (wolf_objects h)[w := (wolf_objects h ! w)\<lparr> pbest := length (arrays h),
                                                      pbest_fitness := x \<rparr>])"
  by (simp add: update_pbest_def)

lemma update_pbest_extends: "heap_extends h (update_pbest h w x)"
proof -
  consider "update_pbest h w x = h"
    | "arrays (update_pbest h w x) = arrays h @ [wolf_position h w]"
      "wolf_objects (update_pbest h w x) =
          (wolf_objects h)[w := (wolf_objects h ! w)\<lparr> pbest := length (arrays h),
                                                      pbest_fitness := x \<rparr>]"
    using update_pbest_cases [of h w x] by blast
  then show ?thesis
  proof cases
    case 1
    then show ?thesis by (simp add: heap_extends_refl)
  next
    case 2
    have "valid_wolf (update_pbest h w x) v" if "valid_wolf h v" for v
      using that 2 by (cases "v = w") (auto simp: valid_wolf_def)
    then show ?thesis
      using 2 by (simp add: heap_extends_def nth_append)
  qed
qed

lemma update_pbest_fields:
  assumes "w < length (wolf_objects h)"
  shows "position (wolf_objects (update_pbest h w x) ! v) = position (wolf_objects h ! v)"
    and "fitness (wolf_objects (update_pbest h w x) ! v) = fitness (wolf_objects h ! v)"
  using assms by (cases "v = w"; simp add: update_pbest_def)+

lemma evaluate_wolf_extends: "heap_extends h (evaluate_wolf f h w)"
proof -
  let ?h1 = "h\<lparr> wolf_objects := (wolf_objects h)
      [w := (wolf_objects h ! w)\<lparr> fitness := f (wolf_position h w) \<rparr>] \<rparr>"
  have "valid_wolf ?h1 v" if "valid_wolf h v" for v
    using that by (cases "v = w") (auto simp: valid_wolf_def)
  then have "heap_extends h ?h1"
    by (simp add: heap_extends_def)
  moreover have "heap_extends ?h1 (update_pbest ?h1 w (fitness (wolf_objects ?h1 ! w)))"
    by (rule update_pbest_extends)
  ultimately show ?thesis
    unfolding evaluate_wolf_def Let_def by (rule heap_extends_trans)
qed

lemma evaluate_wolf_fields:
  assumes "w < length (wolf_objects h)"
  shows "position (wolf_objects (evaluate_wolf f h w) ! v) = position (wolf_objects h ! v)"
    and "fitness (wolf_objects (evaluate_wolf f h w) ! w) = f (wolf_position h w)"
    and "v \<noteq> w \<Longrightarrow> fitness (wolf_objects (evaluate_wolf f h w) ! v) = fitness (wolf_objects h ! v)"
proof -
  let ?h1 = "h\<lparr> wolf_objects := (wolf_objects h)
      [w := (wolf_objects h ! w)\<lparr> fitness := f (wolf_position h w) \<rparr>] \<rparr>"
  have w1: "w < length (wolf_objects ?h1)" using assms by simp
  have e: "evaluate_wolf f h w = update_pbest ?h1 w (fitness (wolf_objects ?h1 ! w))"
    by (simp add: evaluate_wolf_def Let_def)
  show "position (wolf_objects (evaluate_wolf f h w) ! v) = position (wolf_objects h ! v)"
    unfolding e update_pbest_fields(1) [OF w1] using assms by (cases "v = w") simp_all
  show "fitness (wolf_objects (evaluate_wolf f h w) ! w) = f (wolf_position h w)"
    unfolding e update_pbest_fields(2) [OF w1] using assms by simp
  show "v \<noteq> w \<Longrightarrow> fitness (wolf_objects (evaluate_wolf f h w) ! v) = fitness (wolf_objects h ! v)"
    unfolding e update_pbest_fields(2) [OF w1] by simp
qed

lemma valid_wolf_extends: "heap_extends h h' \<Longrightarrow> valid_wolf h v \<Longrightarrow> valid_wolf h' v"
  by (simp add: heap_extends_def)

lemma evaluate_wolves_props:
  assumes "\<forall>w\<in>set ws. valid_wolf h w"
  shows "heap_extends h (evaluate_wolves f ws h)
     \<and> (\<forall>v. position (wolf_objects (evaluate_wolves f ws h) ! v) = position (wolf_objects h ! v))
     \<and> (\<forall>w\<in>set ws. fitness (wolf_objects (evaluate_wolves f ws h) ! w) = f (wolf_position h w))
     \<and> (\<forall>v. v \<notin> set ws \<longrightarrow>
           fitness (wolf_objects (evaluate_wolves f ws h) ! v) = fitness (wolf_objects h ! v))"
  using assms
proof (induction ws arbitrary: h)
  case Nil
  then show ?case by (simp add: heap_extends_refl)
next
  case (Cons w ws)
  let ?h1 = "evaluate_wolf f h w"
  let ?hf = "evaluate_wolves f ws ?h1"
  from Cons.prems have vw: "valid_wolf h w" and vws: "\<forall>u\<in>set ws. valid_wolf h u"
    by simp_all
  then have wlen: "w < length (wolf_objects h)" by (simp add: valid_wolf_def)
  have ext1: "heap_extends h ?h1" by (rule evaluate_wolf_extends)
  have pos1: "\<And>v. position (wolf_objects ?h1 ! v) = position (wolf_objects h ! v)"
    by (rule evaluate_wolf_fields(1) [OF wlen])
  have vws1: "\<forall>u\<in>set ws. valid_wolf ?h1 u"
    using vws valid_wolf_extends [OF ext1] by blast
  note ih = Cons.IH [OF vws1]
  from ih have extf: "heap_extends ?h1 ?hf"
    and posf: "\<forall>v. position (wolf_objects ?hf ! v) = position (wolf_objects ?h1 ! v)"
    and fitf: "\<forall>u\<in>set ws. fitness (wolf_objects ?hf ! u) = f (wolf_position ?h1 u)"
    and restf: "\<forall>v. v \<notin> set ws \<longrightarrow> fitness (wolf_objects ?hf ! v) = fitness (wolf_objects ?h1 ! v)"
    by blast+
  have kept: "wolf_position ?h1 u = wolf_position h u" if "valid_wolf h u" for u
    using wolf_position_kept [OF ext1 pos1 that] .
  have a: "heap_extends h ?hf" using ext1 extf by (rule heap_extends_trans)
  have b: "\<forall>v. position (wolf_objects ?hf ! v) = position (wolf_objects h ! v)"
    using posf pos1 by simp
  have c: "fitness (wolf_objects ?hf ! u) = f (wolf_position h u)" if "u \<in> set (w # ws)" for u
  proof (cases "u \<in> set ws")
    case True
    then show ?thesis using fitf kept vws by simp
  next
    case False
    with that have "u = w" by simp
    then show ?thesis
      using False restf evaluate_wolf_fields(2) [OF wlen, of f] by simp
  qed
  have d: "fitness (wolf_objects ?hf ! v) = fitness (wolf_objects h ! v)" if "v \<notin> set (w # ws)" for v
    using that restf evaluate_wolf_fields(3) [OF wlen, of v f] by simp
  show ?case using a b c d by simp
qed

lemma update_wolf_extends: "heap_extends h (snd (update_wolf self h w it))"
proof -
  let ?h' = "snd (update_wolf self h w it)"
  consider (same) "?h' = h"
    | (moved) pos where "arrays ?h' = arrays h @ [pos]"
        "wolf_objects ?h' =
           (wolf_objects h)[w := (wolf_objects h ! w)\<lparr> position := length (arrays h) \<rparr>]"
    using update_wolf_cases [of self h w it] by blast
  then show ?thesis
  proof cases
    case same
    then show ?thesis by (simp add: heap_extends_refl)
  next
    case moved
    have "valid_wolf ?h' v" if "valid_wolf h v" for v
      using that moved by (cases "v = w") (auto simp: valid_wolf_def)
    then show ?thesis
      using moved by (simp add: heap_extends_def nth_append)
  qed
qed

lemma update_wolf_others:
  "v \<noteq> w \<Longrightarrow> wolf_objects (snd (update_wolf self h w it)) ! v = wolf_objects h ! v"
  using update_wolf_cases [of self h w it] by auto

lemma update_pack_props:
  "heap_extends h (snd (update_pack self it ws h))
   \<and> (\<forall>l. Some l = alpha self \<or> Some l = beta self \<or> Some l = delta self \<longrightarrow>
         wolf_objects (snd (update_pack self it ws h)) ! l = wolf_objects h ! l)"
proof (induction ws arbitrary: h)
  case Nil
  then show ?case by (simp add: heap_extends_refl)
next
  case (Cons w ws)
  show ?case
  proof (cases "Some w \<noteq> alpha self \<and> Some w \<noteq> beta self \<and> Some w \<noteq> delta self")
    case False
    then show ?thesis using Cons.IH [of h] by auto
  next
    case True
    let ?h1 = "snd (update_wolf self h w it)"
    have ext1: "heap_extends h ?h1" by (rule update_wolf_extends)
    have keep1: "wolf_objects ?h1 ! l = wolf_objects h ! l"
      if "Some l = alpha self \<or> Some l = beta self \<or> Some l = delta self" for l
    proof -
      from that True have "l \<noteq> w" by auto
      then show ?thesis by (rule update_wolf_others)
    qed
    show ?thesis
    proof (cases "fst (update_wolf self h w it)")
      case (Some e)
      then have "snd (update_pack self it (w # ws) h) = ?h1"
        using True by (cases "update_wolf self h w it") auto
      then show ?thesis using ext1 keep1 by simp
    next
      case None
      then have eq: "snd (update_pack self it (w # ws) h) = snd (update_pack self it ws ?h1)"
        using True by (cases "update_wolf self h w it") auto
      have "heap_extends h (snd (update_pack self it ws ?h1))"
        using ext1 Cons.IH [of ?h1] heap_extends_trans by blast
      moreover have "wolf_objects (snd (update_pack self it ws ?h1)) ! l = wolf_objects h ! l"
        if l: "Some l = alpha self \<or> Some l = beta self \<or> Some l = delta self" for l
      proof -
        have "wolf_objects (snd (update_pack self it ws ?h1)) ! l = wolf_objects ?h1 ! l"
          using l Cons.IH [of ?h1] by blast
        then show ?thesis using keep1 [OF l] by simp
      qed
      ultimately show ?thesis unfolding eq by blast
    qed
  qed
qed

lemma non_increasing_append:
  assumes "non_increasing hs" and "hs \<noteq> [] \<Longrightarrow> pf_le x (last hs)"
  shows "non_increasing (hs @ [x])"
  unfolding non_increasing_def
proof (intro allI impI)
  fix t
  assume t: "1 \<le> t \<and> t < length (hs @ [x])"
  show "pf_le ((hs @ [x]) ! t) ((hs @ [x]) ! (t - 1))"
  proof (cases "t < length hs")
    case True
    then have "t - 1 < length hs" by simp
    with True have "(hs @ [x]) ! t = hs ! t" "(hs @ [x]) ! (t - 1) = hs ! (t - 1)"
      by (simp_all add: nth_append)
    moreover have "pf_le (hs ! t) (hs ! (t - 1))"
      using t True assms(1) by (simp add: non_increasing_def)
    ultimately show ?thesis by simp
  next
    case False
    with t have tl: "t = length hs" by simp
    with t have ne: "hs \<noteq> []" by auto
    have "(hs @ [x]) ! (t - 1) = last hs"
      using tl ne by (simp add: nth_append last_conv_nth)
    then show ?thesis
      using tl assms(2) [OF ne] by simp
  qed
qed

lemma generation_step:
  assumes inv: "run_invariant f st" and nonan: "\<forall>p. f p \<noteq> NaN"
  shows "non_increasing (best_fitness_history (fst (snd (generation f it st))))
     \<and> (fst (generation f it st) = None \<longrightarrow> run_invariant f (snd (generation f it st)))"
proof -
  let ?self = "fst st"
  let ?h = "snd st"
  let ?h1 = "evaluate_wolves f (wolves ?self) ?h"
  let ?hist = "best_fitness_history ?self"
  from inv have valid: "\<forall>w\<in>set (wolves ?self). valid_wolf ?h w"
    and mono: "non_increasing ?hist"
    and low: "?hist \<noteq> [] \<Longrightarrow>
        \<exists>a\<in>set (wolves ?self). pf_le (f (wolf_position ?h a)) (last ?hist)"
    by (simp_all add: run_invariant_def valid_population_def)
  note ev = evaluate_wolves_props [OF valid, of f]
  from ev have ext1: "heap_extends ?h ?h1"
    and pos1: "\<forall>v. position (wolf_objects ?h1 ! v) = position (wolf_objects ?h ! v)"
    and fit1: "\<forall>w\<in>set (wolves ?self). fitness (wolf_objects ?h1 ! w) = f (wolf_position ?h w)"
    by blast+
  show ?thesis
  proof (cases "wolves ?self = []")
    case True
    then have "generation f it st = (Some IndexError, ?self, ?h1)"
      by (simp add: generation_def Let_def update_leaders_empty)
    then show ?thesis using mono by simp
  next
    case False
    have "\<forall>w\<in>set (wolves ?self). fitness (wolf_objects ?h1 ! w) \<noteq> NaN"
      using fit1 nonan by simp
    from update_leaders_best [OF False this]
    obtain self1 a where ul: "update_leaders ?h1 ?self = Inr self1"
      and al: "alpha self1 = Some a"
      and mem: "a \<in> set (wolves ?self)"
      and least: "\<forall>w\<in>set (wolves ?self).
          pf_le (fitness (wolf_objects ?h1 ! a)) (fitness (wolf_objects ?h1 ! w))"
      and ws1: "wolves self1 = wolves ?self"
      and hist1: "best_fitness_history self1 = ?hist"
      by blast
    let ?best = "fitness (wolf_objects ?h1 ! a)"
    let ?self2 = "self1\<lparr> best_fitness_history := best_fitness_history self1 @ [?best] \<rparr>"
    let ?pack = "update_pack ?self2 it (wolves ?self2) ?h1"
    let ?h2 = "snd ?pack"
    have best: "?best = f (wolf_position ?h a)" using fit1 mem by simp
    have gen: "generation f it st =
        (case ?pack of (Some e, h2) \<Rightarrow> (Some e, ?self2, h2)
           | (None, h2) \<Rightarrow> (None, ?self2\<lparr> iteration := it \<rparr>, h2))"
      by (simp add: generation_def Let_def ul al)
    have "pf_le ?best (last ?hist)" if ne: "?hist \<noteq> []"
    proof -
      from low [OF ne] obtain a0 where a0: "a0 \<in> set (wolves ?self)"
        and le0: "pf_le (f (wolf_position ?h a0)) (last ?hist)" by blast
      have "pf_le ?best (f (wolf_position ?h a0))"
        using least a0 fit1 by simp
      then show ?thesis using le0 by (rule pf_le_trans)
    qed
    with mono have mono2: "non_increasing (?hist @ [?best])"
      by (rule non_increasing_append)
    have hist_gen: "best_fitness_history (fst (snd (generation f it st))) = ?hist @ [?best]"
      unfolding gen by (cases ?pack) (auto simp: hist1 split: option.splits)
    have inv2: "run_invariant f (snd (generation f it st))"
      if ok: "fst (generation f it st) = None"
    proof -
      from ok have res: "snd (generation f it st) = (?self2\<lparr> iteration := it \<rparr>, ?h2)"
        unfolding gen by (cases ?pack) (auto split: option.splits)
      note pk = update_pack_props [of ?h1 ?self2 it "wolves ?self2"]
      from pk have ext2: "heap_extends ?h1 ?h2" by blast
      from pk al have same: "wolf_objects ?h2 ! a = wolf_objects ?h1 ! a" by simp
      have va: "valid_wolf ?h a" using valid mem by simp
      then have va1: "valid_wolf ?h1 a" using ext1 by (rule valid_wolf_extends [rotated])
      have p2: "position (wolf_objects ?h2 ! a) = position (wolf_objects ?h1 ! a)"
        by (simp only: same)
      have p1: "position (wolf_objects ?h1 ! a) = position (wolf_objects ?h ! a)"
        using pos1 by blast
      have "wolf_position ?h2 a = wolf_position ?h1 a"
        using ext2 p2 va1 by (rule wolf_position_kept)
      also have "\<dots> = wolf_position ?h a"
        using ext1 p1 va by (rule wolf_position_kept)
      finally have stay: "f (wolf_position ?h2 a) = ?best" using best by simp
      have "?best \<noteq> NaN" using best nonan by simp
      then have "pf_le (f (wolf_position ?h2 a)) ?best"
        unfolding stay by (rule pf_le_refl)
      moreover have "\<forall>w\<in>set (wolves ?self). valid_wolf ?h2 w"
        using valid ext1 ext2 valid_wolf_extends by blast
      ultimately show ?thesis
        unfolding res using mono2 mem
        by (auto simp: run_invariant_def valid_population_def ws1 hist1)
    qed
    show ?thesis using mono2 hist_gen inv2 by simp
  qed
qed

lemma run_generations_history:
  assumes "run_invariant f st" and "\<forall>p. f p \<noteq> NaN"
  shows "non_increasing (best_fitness_history (fst (snd (run_generations f its st))))"
  using assms(1)
proof (induction its arbitrary: st)
  case Nil
  then show ?case by (simp add: run_invariant_def)
next
  case (Cons it its)
  note step = generation_step [OF Cons.prems assms(2), of it]
  show ?case
  proof (cases "fst (generation f it st)")
    case None
    then have "run_generations f (it # its) st = run_generations f its (snd (generation f it st))"
      by (cases "generation f it st") auto
    moreover have "run_invariant f (snd (generation f it st))"
      using step None by simp
    ultimately show ?thesis using Cons.IH by simp
  next
    case (Some e)
    then have "run_generations f (it # its) st = (Some e, snd (generation f it st))"
      by (cases "generation f it st") auto
    then show ?thesis using step by simp
  qed
qed

lemma pack_heap_eq:
  "pack_heap =
     \<lparr> arrays = [[0, 1, 1], [0, 1, 1], [1, 2, 1], [1, 2, 1], [2, 1, 2], [2, 1, 2],
                 [2, 3, 2], [2, 3, 2]],
       wolf_objects =
         [\<lparr> position = 0, num_tasks = 1, num_hosts = 3, fitness = PInf, pbest = 1,
             pbest_fitness = PInf \<rparr>,
          \<lparr> position = 2, num_tasks = 1, num_hosts = 3, fitness = PInf, pbest = 3,
             pbest_fitness = PInf \<rparr>,
          \<lparr> position = 4, num_tasks = 1, num_hosts = 3, fitness = PInf, pbest = 5,
             pbest_fitness = PInf \<rparr>,
          \<lparr> position = 6, num_tasks = 1, num_hosts = 3, fitness = PInf, pbest = 7,
             pbest_fitness = PInf \<rparr>] \<rparr>"
  by (simp add: pack_heap_def Wolf_def)

text \<open>
  C3. The recorded history of the best fitness should not increase, for every fitness
  function of the position. With the fitness that is not a number at every position the
  run over the example population returns, its history is not-a-number twice, and
  not-a-number is not less than or equal to itself.
\<close>

theorem C3_nan_history_fails:
  "fst (optimize nan_fitness (pack_optimizer, pack_heap)) = Inr 0
   \<and> best_fitness_history (fst (snd (optimize nan_fitness (pack_optimizer, pack_heap))))
       = [NaN, NaN]
   \<and> \<not> pf_le NaN NaN
   \<and> \<not> non_increasing
         (best_fitness_history (fst (snd (optimize nan_fitness (pack_optimizer, pack_heap)))))"
proof -
  have run: "fst (optimize nan_fitness (pack_optimizer, pack_heap)) = Inr 0
      \<and> best_fitness_history (fst (snd (optimize nan_fitness (pack_optimizer, pack_heap))))
          = [NaN, NaN]"
    by (simp add: optimize_def pack_optimizer_def pack_heap_eq generation_def Let_def
        evaluate_wolf_def update_pbest_def wolf_position_def wolf_pbest_def nan_fitness_def
        update_leaders_def py_sorted_def update_wolf_def new_position_def memory_linear
        np_broadcast_def np_clip_def numeral_2_eq_2 upt_rec)
  have "\<not> non_increasing [NaN, NaN]"
  proof
    assume "non_increasing [NaN, NaN]"
    then have "pf_le ([NaN, NaN] ! 1) ([NaN, NaN] ! (1 - 1))"
      unfolding non_increasing_def by (elim allE [of _ 1]) simp
    then show False by simp
  qed
  with run show ?thesis by simp
qed

text \<open>
  C3, amended. For a run of \<open>optimize\<close> on a population of valid wolves with a fitness function
  of the position that never returns not-a-number, the recorded history of the best
  fitness does not increase from one generation to the next. This holds for the history
  of a run that returns and for the history recorded up to an exception.
\<close>

theorem C3_history_non_increasing:
  assumes "valid_population self h" and "\<forall>p. f p \<noteq> NaN"
  shows "non_increasing (best_fitness_history (fst (snd (optimize f (self, h)))))"
proof -
  let ?st0 = "(self\<lparr> best_fitness_history := [] \<rparr>, h)"
  let ?run = "run_generations f (map int [0..<nat (max_iterations self)]) ?st0"
  have "run_invariant f ?st0"
    using assms(1) by (simp add: run_invariant_def valid_population_def non_increasing_def)
  then have mono: "non_increasing (best_fitness_history (fst (snd ?run)))"
    using assms(2) by (rule run_generations_history)
  have "snd (optimize f (self, h)) = snd ?run"
    by (cases ?run) (auto simp: optimize_def split: option.splits)
  then show ?thesis using mono by simp
qed

lemma example_run: "best_fitness_history (fst (snd (optimize distance_fitness (pack_optimizer, pack_heap))))
   = [Fin (1 / 3), Fin 0]"
  by (simp add: optimize_def pack_optimizer_def pack_heap_eq generation_def Let_def
      evaluate_wolf_def update_pbest_def wolf_position_def wolf_pbest_def distance_fitness_def
      update_leaders_def py_sorted_def update_wolf_def new_position_def memory_linear
      np_broadcast_def np_clip_def numeral_2_eq_2 upt_rec)

theorem C3_history_non_increasing_witness:
  "valid_population pack_optimizer pack_heap
   \<and> (\<forall>p. distance_fitness p \<noteq> NaN)
   \<and> best_fitness_history (fst (snd (optimize distance_fitness (pack_optimizer, pack_heap))))
       = [Fin (1 / 3), Fin 0]
   \<and> non_increasing
        (best_fitness_history (fst (snd (optimize distance_fitness (pack_optimizer, pack_heap)))))"
proof -
  have v: "valid_population pack_optimizer pack_heap"
    by (simp add: valid_population_def valid_wolf_def pack_optimizer_def pack_heap_eq)
  have n: "\<forall>p. distance_fitness p \<noteq> NaN"
    by (simp add: distance_fitness_def)
  from C3_history_non_increasing [OF v n] example_run v n show ?thesis
    by blast
qed

end
